theory Spec2Isabelle
  imports Main "HOL-Library.AList"
begin

section \<open>The \<open>ia configure\<close> subcommand\<close>

text \<open>
  This theory embeds \<^verbatim>\<open>main\<close> of \<^verbatim>\<open>internetarchive/cli/ia_configure.py\<close>.
  The function reads the session's configuration (a dictionary of dictionaries), may copy
  and update dictionaries, prints to two streams, calls three collaborators
  (\<^verbatim>\<open>session.whoami()\<close>, \<^verbatim>\<open>netrc.netrc()\<close>, \<^verbatim>\<open>configure(...)\<close>) and leaves by
  \<^verbatim>\<open>sys.exit\<close> or by an exception. The model therefore has
  \<^item> a heap of mutable containers, since \<^verbatim>\<open>dict.copy()\<close> is shallow and item
    assignment updates an object in place;
  \<^item> a trace of what was printed and which collaborator was called;
  \<^item> exceptions as values, \<^verbatim>\<open>SystemExit\<close> among them.
\<close>

subsection \<open>Python values\<close>

type_synonym addr = nat

text \<open>
  Immutable values are held directly; a dictionary or a list is an object of the heap and a
  value refers to it by its address. Dictionary keys are strings; a dictionary keeps its
  entries in insertion order, as Python does.
\<close>

datatype pyval = PNone | PBool bool | PInt int | PStr string | PRef addr

datatype pyobj = PDict "(string \<times> pyval) list" | PList "pyval list"

text \<open>A JSON document: what \<^verbatim>\<open>json.dumps\<close> sees when it walks a value.\<close>

datatype jv = JNull | JBool bool | JInt int | JStr string
  | JList "jv list" | JDict "(string \<times> jv) list"

datatype exc =
    SystemExit "int option"
  | AttributeError
  | KeyError string
  | TypeError
  | ValueError
  | NetrcParseError
  | FileNotFoundError
  | AuthenticationError string
  | OtherError string

subsection \<open>Output and calls\<close>

datatype stream = Stdout | Stderr

text \<open>One label for each \<^verbatim>\<open>print\<close> call of \<^verbatim>\<open>main\<close>, in source order.\<close>

datatype kind =
    Missing_both_cookies
  | Missing_user_cookie
  | Missing_sig_cookie
  | Cookie_line
  | Config_json
  | Credentials_valid
  | Invalid_credentials
  | Netrc_banner
  | Netrc_parse_error
  | Netrc_file_not_found
  | Netrc_config_saved
  | Interactive_banner
  | Config_saved
  | Authentication_failure

datatype event =
    Print stream kind string
  | Call_whoami
  | Call_netrc
  | Call_configure "string option" "string option" pyval pyval

record world =
  heap :: "pyobj list"
  trace :: "event list"

subsection \<open>Arguments, session and collaborators\<close>

record session =
  config :: pyval
  config_file :: pyval
  host :: pyval

text \<open>
  The parsed command line. \<^verbatim>\<open>args.show\<close> is the field \<open>show_opt\<close>
  (\<open>show\<close> is a keyword of the proof language).
\<close>

record args =
  username :: "string option"
  password :: "string option"
  netrc :: bool
  show_opt :: bool
  check :: bool
  print_cookies :: bool
  session :: session

text \<open>
  What is not code of this file is a parameter: the text Python's \<^verbatim>\<open>repr\<close> gives a
  value, the text \<^verbatim>\<open>json.dumps(_, indent=2)\<close> gives a document, and the results of the
  three collaborators. An entry of \<^verbatim>\<open>netrc.hosts\<close> is the triple (login, account,
  password).
\<close>

record env =
  py_repr :: "pyobj list \<Rightarrow> pyval \<Rightarrow> string"
  json_dumps :: "jv \<Rightarrow> string"
  whoami :: "exc + pyval"
  netrc_netrc :: "exc + (string \<times> string \<times> string option \<times> string option) list"
  configure :: "string option \<Rightarrow> string option \<Rightarrow> pyval \<Rightarrow> pyval \<Rightarrow> exc + string"

subsection \<open>Statements\<close>

text \<open>
  A statement runs in a world and either completes with a value or raises; the world it
  leaves is returned in both cases.
\<close>

type_synonym 'a py = "world \<Rightarrow> (exc + 'a) \<times> world"

definition py_return :: "'a \<Rightarrow> 'a py" where
  "py_return x = (\<lambda>w. (Inr x, w))"

definition py_raise :: "exc \<Rightarrow> 'a py" where
  "py_raise e = (\<lambda>w. (Inl e, w))"

definition py_bind :: "'a py \<Rightarrow> ('a \<Rightarrow> 'b py) \<Rightarrow> 'b py" where
  "py_bind m f = (\<lambda>w. case m w of (Inl e, w') \<Rightarrow> (Inl e, w') | (Inr x, w') \<Rightarrow> f x w')"

definition py_then :: "unit py \<Rightarrow> 'a py \<Rightarrow> 'a py" where
  "py_then m n = py_bind m (\<lambda>_. n)"

definition py_when :: "bool \<Rightarrow> unit py \<Rightarrow> unit py" where
  "py_when b m = (if b then m else py_return ())"

text \<open>
  \<^verbatim>\<open>try: m except ...\<close>: the handler table \<open>h\<close> gives the body of the first clause
  that matches the exception, or \<open>None\<close> when no clause does and the exception goes on.
\<close>

definition py_try :: "'a py \<Rightarrow> (exc \<Rightarrow> 'a py option) \<Rightarrow> 'a py" where
  "py_try m h = (\<lambda>w. case m w of
       (Inl e, w') \<Rightarrow> (case h e of Some k \<Rightarrow> k w' | None \<Rightarrow> (Inl e, w'))
     | (Inr x, w') \<Rightarrow> (Inr x, w'))"

definition print :: "stream \<Rightarrow> kind \<Rightarrow> string \<Rightarrow> unit py" where
  "print s k t = (\<lambda>w. (Inr (), w\<lparr>trace := trace w @ [Print s k t]\<rparr>))"

definition sys_exit :: "int option \<Rightarrow> 'a py" where
  "sys_exit c = py_raise (SystemExit c)"

text \<open>A call of a collaborator is recorded, then returns or raises what the collaborator does.\<close>

definition call :: "event \<Rightarrow> exc + 'a \<Rightarrow> 'a py" where
  "call ev r = (\<lambda>w. (r, w\<lparr>trace := trace w @ [ev]\<rparr>))"

subsection \<open>Operations on values\<close>

text \<open>
  The object a value refers to. An address beyond the heap does not occur in a Python
  state; the operations below treat such a value like one that is no container.
\<close>

definition deref :: "pyobj list \<Rightarrow> pyval \<Rightarrow> pyobj option" where
  "deref h v = (case v of PRef a \<Rightarrow> (if a < length h then Some (h ! a) else None) | _ \<Rightarrow> None)"

definition alloc :: "pyobj \<Rightarrow> pyval py" where
  "alloc obj = (\<lambda>w. (Inr (PRef (length (heap w))), w\<lparr>heap := heap w @ [obj]\<rparr>))"

text \<open>\<^verbatim>\<open>bool(v)\<close>: \<^verbatim>\<open>None\<close>, \<^verbatim>\<open>False\<close>, \<^verbatim>\<open>0\<close> and the empty string, list and dictionary are false.\<close>

definition truthy :: "pyobj list \<Rightarrow> pyval \<Rightarrow> bool" where
  "truthy h v = (case v of
       PNone \<Rightarrow> False
     | PBool b \<Rightarrow> b
     | PInt i \<Rightarrow> i \<noteq> 0
     | PStr s \<Rightarrow> s \<noteq> []
     | PRef a \<Rightarrow> (case deref h v of
           Some (PDict kvs) \<Rightarrow> kvs \<noteq> []
         | Some (PList vs) \<Rightarrow> vs \<noteq> []
         | None \<Rightarrow> True))"

definition py_bool :: "pyval \<Rightarrow> bool py" where
  "py_bool v = (\<lambda>w. (Inr (truthy (heap w) v), w))"

text \<open>\<^verbatim>\<open>x.get(k)\<close>: only a dictionary has the method.\<close>

definition get :: "pyval \<Rightarrow> string \<Rightarrow> pyval py" where
  "get x k = (\<lambda>w. case deref (heap w) x of
       Some (PDict kvs) \<Rightarrow> (Inr (case map_of kvs k of Some v \<Rightarrow> v | None \<Rightarrow> PNone), w)
     | _ \<Rightarrow> (Inl AttributeError, w))"

text \<open>
  \<^verbatim>\<open>x.get(k, {})\<close>: the method is looked up first, then the default \<^verbatim>\<open>{}\<close> is built
  (a new empty dictionary, whether it is needed or not), then the entry is read.
\<close>

definition get_or_new_dict :: "pyval \<Rightarrow> string \<Rightarrow> pyval py" where
  "get_or_new_dict x k = (\<lambda>w. case deref (heap w) x of
       Some (PDict kvs) \<Rightarrow>
         py_bind (alloc (PDict []))
           (\<lambda>d. py_return (case map_of kvs k of Some v \<Rightarrow> v | None \<Rightarrow> d)) w
     | _ \<Rightarrow> (Inl AttributeError, w))"

text \<open>\<^verbatim>\<open>x.copy()\<close>: dictionaries and lists have the method; the copy is shallow.\<close>

definition copy :: "pyval \<Rightarrow> pyval py" where
  "copy x = (\<lambda>w. case deref (heap w) x of
       Some obj \<Rightarrow> alloc obj w
     | None \<Rightarrow> (Inl AttributeError, w))"

text \<open>
  \<^verbatim>\<open>k in x\<close> for a string \<open>k\<close>: a key of a dictionary, an element of a list, a
  substring of a string; any other value is not iterable.
\<close>

definition contains :: "string \<Rightarrow> pyval \<Rightarrow> bool py" where
  "contains k x = (\<lambda>w. case deref (heap w) x of
       Some (PDict kvs) \<Rightarrow> (Inr (map_of kvs k \<noteq> None), w)
     | Some (PList vs) \<Rightarrow> (Inr (PStr k \<in> set vs), w)
     | None \<Rightarrow> (case x of
           PStr s \<Rightarrow> (Inr (\<exists>i \<in> set [0 ..< Suc (length s)]. take (length k) (drop i s) = k), w)
         | _ \<Rightarrow> (Inl TypeError, w)))"

text \<open>\<^verbatim>\<open>x[k]\<close> for a string \<open>k\<close>: only a dictionary takes a string as subscript.\<close>

definition getitem :: "pyval \<Rightarrow> string \<Rightarrow> pyval py" where
  "getitem x k = (\<lambda>w. case deref (heap w) x of
       Some (PDict kvs) \<Rightarrow> (case map_of kvs k of Some v \<Rightarrow> (Inr v, w) | None \<Rightarrow> (Inl (KeyError k), w))
     | _ \<Rightarrow> (Inl TypeError, w))"

text \<open>
  \<^verbatim>\<open>x[k] = v\<close> for a string \<open>k\<close>: the dictionary object itself is updated; an existing
  key keeps its place, a new one goes last.
\<close>

definition setitem :: "pyval \<Rightarrow> string \<Rightarrow> pyval \<Rightarrow> unit py" where
  "setitem x k v = (\<lambda>w. case deref (heap w) x of
       Some (PDict kvs) \<Rightarrow>
         (case x of
            PRef a \<Rightarrow> (Inr (), w\<lparr>heap := (heap w)[a := PDict (AList.update k v kvs)]\<rparr>)
          | _ \<Rightarrow> (Inl TypeError, w))
     | _ \<Rightarrow> (Inl TypeError, w))"

text \<open>
  \<^verbatim>\<open>str(v)\<close>, as an f-string applies it: a string is itself, \<^verbatim>\<open>None\<close> and the truth
  values have fixed names, and integers and containers print as \<^verbatim>\<open>repr\<close> does.
\<close>

definition str_of :: "env \<Rightarrow> pyobj list \<Rightarrow> pyval \<Rightarrow> string" where
  "str_of E h v = (case v of
       PStr s \<Rightarrow> s
     | PNone \<Rightarrow> ''None''
     | PBool b \<Rightarrow> (if b then ''True'' else ''False'')
     | _ \<Rightarrow> py_repr E h v)"

definition str :: "env \<Rightarrow> pyval \<Rightarrow> string py" where
  "str E v = (\<lambda>w. (Inr (str_of E (heap w) v), w))"

subsection \<open>Serialising to JSON\<close>

text \<open>
  \<^verbatim>\<open>json.dumps\<close> walks the value and keeps the containers it is inside of (the list
  \<open>P\<close>, its \<^verbatim>\<open>markers\<close>); meeting one of them again is a circular reference, for which
  it raises \<^verbatim>\<open>ValueError\<close>. \<open>snapshot\<close> is that walk: it gives the document, or
  \<open>None\<close> where \<^verbatim>\<open>json.dumps\<close> raises.
\<close>

function snapshot :: "pyobj list \<Rightarrow> addr list \<Rightarrow> pyval \<Rightarrow> jv option" where
  "snapshot h P PNone = Some JNull"
| "snapshot h P (PBool b) = Some (JBool b)"
| "snapshot h P (PInt i) = Some (JInt i)"
| "snapshot h P (PStr s) = Some (JStr s)"
| "snapshot h P (PRef a) =
     (if a < length h \<and> a \<notin> set P then
        (case h ! a of
           PDict kvs \<Rightarrow>
             map_option JDict
               (those (map (\<lambda>kv. map_option (Pair (fst kv)) (snapshot h (a # P) (snd kv))) kvs))
         | PList vs \<Rightarrow> map_option JList (those (map (snapshot h (a # P)) vs)))
      else None)"
  by pat_completeness auto
termination
proof (relation "measure (\<lambda>(h, P, v). length h - card (set P \<inter> {..<length h}))")
  show "wf (measure (\<lambda>(h, P, v). length h - card (set P \<inter> {..<length h})))"
    by simp
next
  fix h :: "pyobj list" and P :: "addr list" and a :: addr and x :: "string \<times> pyval"
  assume "a < length h \<and> a \<notin> set P"
  then have "card (set (a # P) \<inter> {..<length h}) = Suc (card (set P \<inter> {..<length h}))"
    by simp
  moreover have "card (set (a # P) \<inter> {..<length h}) \<le> length h"
    by (metis card_lessThan card_mono finite_lessThan inf_le2)
  ultimately show "((h, a # P, snd x), h, P, PRef a)
      \<in> measure (\<lambda>(h, P, v). length h - card (set P \<inter> {..<length h}))"
    by simp
next
  fix h :: "pyobj list" and P :: "addr list" and a :: addr and x :: pyval
  assume "a < length h \<and> a \<notin> set P"
  then have "card (set (a # P) \<inter> {..<length h}) = Suc (card (set P \<inter> {..<length h}))"
    by simp
  moreover have "card (set (a # P) \<inter> {..<length h}) \<le> length h"
    by (metis card_lessThan card_mono finite_lessThan inf_le2)
  ultimately show "((h, a # P, x), h, P, PRef a)
      \<in> measure (\<lambda>(h, P, v). length h - card (set P \<inter> {..<length h}))"
    by simp
qed

text \<open>\<^verbatim>\<open>json.dumps(x, indent=2)\<close>.\<close>

definition dumps :: "env \<Rightarrow> pyval \<Rightarrow> string py" where
  "dumps E x = (\<lambda>w. case snapshot (heap w) [] x of
       Some t \<Rightarrow> (Inr (json_dumps E t), w)
     | None \<Rightarrow> (Inl ValueError, w))"

subsection \<open>The four branches of \<^verbatim>\<open>main\<close>\<close>

text \<open>Lines 74 to 88: the body of \<^verbatim>\<open>if args.print_cookies:\<close>.\<close>

definition print_cookies_body :: "env \<Rightarrow> args \<Rightarrow> unit py" where
  "print_cookies_body E a =
     py_bind (get_or_new_dict (config (session a)) ''cookies'') (\<lambda>c1.
     py_bind (get c1 ''logged-in-user'') (\<lambda>user.
     py_bind (get_or_new_dict (config (session a)) ''cookies'') (\<lambda>c2.
     py_bind (get c2 ''logged-in-sig'') (\<lambda>sig.
     py_bind (py_bool user) (\<lambda>u.
     py_bind (py_bool sig) (\<lambda>s.
     py_then
       (py_when (\<not> u \<or> \<not> s)
          (py_then
             (if \<not> u \<and> \<not> s then
                print Stderr Missing_both_cookies
                  (''error: 'logged-in-user' and 'logged-in-sig' cookies '' @
                   ''not found in config file, try reconfiguring.'')
              else if \<not> u then
                print Stderr Missing_user_cookie
                  (''error: 'logged-in-user' cookie not found in config file, '' @
                   ''try reconfiguring.'')
              else if \<not> s then
                print Stderr Missing_sig_cookie
                  (''error: 'logged-in-sig' cookie not found in config file, '' @
                   ''try reconfiguring.'')
              else py_return ())
             (sys_exit (Some 1))))
       (py_bind (str E user) (\<lambda>us.
        py_bind (str E sig) (\<lambda>ss.
        py_then
          (print Stdout Cookie_line (''logged-in-user='' @ us @ ''; logged-in-sig='' @ ss))
          (sys_exit None))))))))))"

text \<open>Lines 91 to 106: the body of \<^verbatim>\<open>if args.show:\<close>.\<close>

definition show_body :: "env \<Rightarrow> args \<Rightarrow> unit py" where
  "show_body E a =
     py_bind (copy (config (session a))) (\<lambda>cfg.
     py_then
       (py_bind (contains ''s3'' cfg) (\<lambda>has_s3.
        py_when has_s3
          (py_bind (getitem cfg ''s3'') (\<lambda>s3.
           py_bind (copy s3) (\<lambda>s3_config.
           py_then
             (py_bind (contains ''secret'' s3_config) (\<lambda>has_secret.
              py_when has_secret (setitem s3_config ''secret'' (PStr ''REDACTED''))))
             (setitem cfg ''s3'' s3_config))))))
    (py_then
       (py_bind (contains ''cookies'' cfg) (\<lambda>has_cookies.
        py_when has_cookies
          (py_bind (getitem cfg ''cookies'') (\<lambda>c.
           py_bind (copy c) (\<lambda>cookies.
           py_then
             (py_bind (contains ''logged-in-sig'' cookies) (\<lambda>has_sig.
              py_when has_sig (setitem cookies ''logged-in-sig'' (PStr ''REDACTED''))))
             (setitem cfg ''cookies'' cookies))))))
    (py_then
       (py_bind (dumps E cfg) (\<lambda>text. print Stdout Config_json text))
       (sys_exit None))))"

text \<open>
  Lines 109 to 116: the body of \<^verbatim>\<open>if args.check:\<close>. \<^verbatim>\<open>is True\<close> holds of the one
  object \<^verbatim>\<open>True\<close> only.
\<close>

definition check_body :: "env \<Rightarrow> args \<Rightarrow> unit py" where
  \<open>check_body E a =
     py_bind (call Call_whoami (whoami E)) (\<lambda>whoami_info.
     py_bind (get whoami_info ''success'') (\<lambda>success.
     if success = PBool True then
       py_bind (getitem whoami_info ''value'') (\<lambda>v.
       py_bind (getitem v ''username'') (\<lambda>user.
       py_bind (str E user) (\<lambda>us.
       py_then
         (print Stdout Credentials_valid (''The credentials for "'' @ us @ ''" are valid''))
         (sys_exit (Some 0)))))
     else
       py_then
         (print Stdout Invalid_credentials
            ''Your credentials are invalid, check your configuration and try again'')
         (sys_exit (Some 1))))\<close>

text \<open>\<^verbatim>\<open>bool(s)\<close> of an optional string: \<^verbatim>\<open>None\<close> and the empty string are false.\<close>

definition truthy_opt :: "string option \<Rightarrow> bool" where
  "truthy_opt s = (case s of None \<Rightarrow> False | Some t \<Rightarrow> t \<noteq> [])"

text \<open>\<^verbatim>\<open>password or ""\<close>.\<close>

definition or_empty :: "string option \<Rightarrow> string" where
  "or_empty s = (case s of None \<Rightarrow> [] | Some t \<Rightarrow> t)"

text \<open>Lines 122 to 130: \<^verbatim>\<open>netrc.netrc()\<close> under its two \<^verbatim>\<open>except\<close> clauses.\<close>

definition read_netrc :: "env \<Rightarrow> (string \<times> string \<times> string option \<times> string option) list py" where
  "read_netrc E =
     py_try (call Call_netrc (netrc_netrc E)) (\<lambda>e. case e of
         NetrcParseError \<Rightarrow> Some (
           py_then
             (print Stderr Netrc_parse_error ''error: netrc.netrc() cannot parse your .netrc file.'')
             (sys_exit (Some 1)))
       | FileNotFoundError \<Rightarrow> Some (
           py_then
             (print Stderr Netrc_file_not_found ''error: .netrc file not found.'')
             (sys_exit (Some 1)))
       | _ \<Rightarrow> None)"

text \<open>\<^verbatim>\<open>n.hosts["archive.org"]\<close>: a plain dictionary subscript.\<close>

definition hosts_getitem ::
    "(string \<times> string \<times> string option \<times> string option) list \<Rightarrow> string
      \<Rightarrow> (string \<times> string option \<times> string option) py" where
  "hosts_getitem hosts k = (case map_of hosts k of
       Some entry \<Rightarrow> py_return entry
     | None \<Rightarrow> py_raise (KeyError k))"

text \<open>Lines 118 to 152: the \<^verbatim>\<open>try\<close> statement that ends \<^verbatim>\<open>main\<close>.\<close>

definition configure_body :: "env \<Rightarrow> args \<Rightarrow> unit py" where
  "configure_body E a =
     py_try
       (if netrc a then
          py_then (print Stderr Netrc_banner ''Configuring 'ia' with netrc file...'')
         (py_bind (read_netrc E) (\<lambda>n.
          py_bind (hosts_getitem n ''archive.org'') (\<lambda>(login, account, pass).
          py_bind
            (call
               (Call_configure (Some login) (Some (or_empty pass))
                  (config_file (session a)) (host (session a)))
               (configure E (Some login) (Some (or_empty pass))
                  (config_file (session a)) (host (session a))))
            (\<lambda>config_file_path.
          print Stderr Netrc_config_saved (''Config saved to: '' @ config_file_path)))))
        else
          py_then
            (py_when (\<not> (truthy_opt (username a) \<and> truthy_opt (password a)))
               (print Stdout Interactive_banner
                  (''Enter your Archive.org credentials below to configure 'ia'.'' @ [CHR 0x0A])))
         (py_bind
            (call
               (Call_configure (username a) (password a)
                  (config_file (session a)) (host (session a)))
               (configure E (username a) (password a)
                  (config_file (session a)) (host (session a))))
            (\<lambda>config_file_path.
          print Stdout Config_saved
            ((if \<not> (truthy_opt (username a) \<and> truthy_opt (password a)) then [CHR 0x0A] else [])
             @ ''Config saved to: '' @ config_file_path))))
       (\<lambda>e. case e of
          AuthenticationError msg \<Rightarrow> Some (
            py_then
              (print Stderr Authentication_failure ([CHR 0x0A] @ ''error: '' @ msg))
              (sys_exit (Some 1)))
        | _ \<Rightarrow> None)"

subsection \<open>\<^verbatim>\<open>main\<close>\<close>

text \<open>
  Three \<^verbatim>\<open>if\<close> statements and the \<^verbatim>\<open>try\<close> statement, one after the other: a body
  that completes is followed by the next statement.
\<close>

definition main :: "env \<Rightarrow> args \<Rightarrow> unit py" where
  "main E a =
     py_then (py_when (print_cookies a) (print_cookies_body E a))
    (py_then (py_when (show_opt a) (show_body E a))
    (py_then (py_when (check a) (check_body E a))
    (configure_body E a)))"

text \<open>
  How the process ends: the exit code of a \<^verbatim>\<open>SystemExit\<close> (\<^verbatim>\<open>sys.exit()\<close> without
  an argument means 0), and \<open>None\<close> when \<^verbatim>\<open>main\<close> returns or another exception leaves it
  unhandled.
\<close>

definition exit_code :: "exc + unit \<Rightarrow> int option" where
  "exit_code r = (case r of
       Inl (SystemExit None) \<Rightarrow> Some 0
     | Inl (SystemExit (Some n)) \<Rightarrow> Some n
     | _ \<Rightarrow> None)"

text \<open>An exception other than \<^verbatim>\<open>SystemExit\<close> that leaves \<^verbatim>\<open>main\<close>: a traceback.\<close>

definition unhandled :: "exc + unit \<Rightarrow> bool" where
  "unhandled r = (case r of Inl (SystemExit c) \<Rightarrow> False | Inl e \<Rightarrow> True | Inr u \<Rightarrow> False)"

subsection \<open>The selection of the action\<close>

text \<open>
  The four actions the command knows, and the one the flags select: the first of
  \<^verbatim>\<open>print_cookies\<close>, \<^verbatim>\<open>show\<close>, \<^verbatim>\<open>check\<close> that is set, the default otherwise.
\<close>

datatype action = Print_cookies | Show | Check | Configure

definition selected :: "args \<Rightarrow> action" where
  "selected a =
     (if print_cookies a then Print_cookies
      else if show_opt a then Show
      else if check a then Check
      else Configure)"

fun run_action :: "action \<Rightarrow> env \<Rightarrow> args \<Rightarrow> unit py" where
  "run_action Print_cookies E a = print_cookies_body E a"
| "run_action Show E a = show_body E a"
| "run_action Check E a = check_body E a"
| "run_action Configure E a = configure_body E a"

subsection \<open>Values of a heap\<close>

text \<open>A value of the heap \<open>h\<close>: a reference among its values points into \<open>h\<close>.\<close>

definition valid :: "pyobj list \<Rightarrow> pyval \<Rightarrow> bool" where
  "valid h v = (case v of PRef a \<Rightarrow> a < length h | _ \<Rightarrow> True)"

subsection \<open>The redacted configuration\<close>

text \<open>The entries of a dictionary as \<^verbatim>\<open>json.dumps\<close> sees them, inside the containers \<open>P\<close>.\<close>

definition snapshot_entries ::
    "pyobj list \<Rightarrow> addr list \<Rightarrow> (string \<times> pyval) list \<Rightarrow> (string \<times> jv) list option" where
  "snapshot_entries h P kvs =
     those (map (\<lambda>kv. map_option (Pair (fst kv)) (snapshot h P (snd kv))) kvs)"

text \<open>
  What the specification says \<^verbatim>\<open>--show\<close> prints, as a function on JSON documents: the
  configuration with \<^verbatim>\<open>s3.secret\<close>, if present, replaced by the string
  \<^verbatim>\<open>REDACTED\<close>, then \<^verbatim>\<open>cookies.logged-in-sig\<close>, if present, replaced likewise; every
  other entry, and the order of the entries, as it was.
\<close>

definition redact_key :: "string \<Rightarrow> jv \<Rightarrow> jv" where
  "redact_key key sec = (case sec of
       JDict sub \<Rightarrow>
         (if map_of sub key \<noteq> None then JDict (AList.update key (JStr ''REDACTED'') sub)
          else sec)
     | _ \<Rightarrow> sec)"

definition redact :: "string \<Rightarrow> string \<Rightarrow> jv \<Rightarrow> jv" where
  "redact section key cfg = (case cfg of
       JDict kvs \<Rightarrow>
         (case map_of kvs section of
            Some sec \<Rightarrow> JDict (AList.update section (redact_key key sec) kvs)
          | None \<Rightarrow> cfg)
     | _ \<Rightarrow> cfg)"

definition redacted_config :: "jv \<Rightarrow> jv" where
  "redacted_config t = redact ''cookies'' ''logged-in-sig'' (redact ''s3'' ''secret'' t)"

text \<open>
  Lines 93 to 97 and lines 99 to 103 of \<^verbatim>\<open>main\<close> are one statement, for the section
  \<^verbatim>\<open>s3\<close> with the key \<^verbatim>\<open>secret\<close> and for the section \<^verbatim>\<open>cookies\<close> with the key
  \<^verbatim>\<open>logged-in-sig\<close>.
\<close>

definition redact_stmt :: "pyval \<Rightarrow> string \<Rightarrow> string \<Rightarrow> unit py" where
  "redact_stmt cfg section key =
     py_bind (contains section cfg) (\<lambda>has_section.
     py_when has_section
       (py_bind (getitem cfg section) (\<lambda>s.
        py_bind (copy s) (\<lambda>s_config.
        py_then
          (py_bind (contains key s_config) (\<lambda>has_key.
           py_when has_key (setitem s_config key (PStr ''REDACTED''))))
          (setitem cfg section s_config)))))"

subsection \<open>Objects that stay as they are\<close>

text \<open>
  The objects of a heap \<open>h0\<close> are all still there, unchanged, in a later world; a value
  that refers to an object made after \<open>h0\<close>; a statement that changes no object of
  \<open>h0\<close>.
\<close>

definition prefix_kept :: "pyobj list \<Rightarrow> world \<Rightarrow> bool" where
  "prefix_kept h0 w \<longleftrightarrow> take (length h0) (heap w) = h0"

definition fresh :: "pyobj list \<Rightarrow> pyval \<Rightarrow> bool" where
  "fresh h0 v = (case v of PRef a \<Rightarrow> length h0 \<le> a | _ \<Rightarrow> False)"

definition keeps :: "pyobj list \<Rightarrow> 'a py \<Rightarrow> bool" where
  "keeps h0 m \<longleftrightarrow> (\<forall>w. prefix_kept h0 w \<longrightarrow> prefix_kept h0 (snd (m w)))"

subsection \<open>A sample invocation\<close>

text \<open>
  A session whose configuration has an \<^verbatim>\<open>s3\<close> and a \<^verbatim>\<open>cookies\<close> section (objects 0 to
  2 of the heap), and the answer of \<^verbatim>\<open>whoami\<close> for it (objects 3 and 4).
\<close>

definition ex_heap :: "pyobj list" where
  "ex_heap =
     [PDict [(''s3'', PRef 1), (''cookies'', PRef 2)],
      PDict [(''access'', PStr ''AKEY''), (''secret'', PStr ''SKEY'')],
      PDict [(''logged-in-user'', PStr ''alice''), (''logged-in-sig'', PStr ''xyz'')],
      PDict [(''success'', PBool True), (''value'', PRef 4)],
      PDict [(''username'', PStr ''alice'')]]"

definition ex_session :: session where
  "ex_session = \<lparr>config = PRef 0, config_file = PStr ''ia.ini'', host = PStr ''archive.org''\<rparr>"

definition ex_args :: args where
  "ex_args = \<lparr>username = None, password = None, netrc = False, show_opt = False,
     check = False, print_cookies = False, session = ex_session\<rparr>"

definition ex_env :: env where
  "ex_env = \<lparr>py_repr = (\<lambda>h v. ''?''), json_dumps = (\<lambda>t. ''{...}''),
     whoami = Inr (PRef 3), netrc_netrc = Inl FileNotFoundError,
     configure = (\<lambda>u p c h. Inr ''ia.ini'')\<rparr>"

subsection \<open>Streams of the messages\<close>

text \<open>
  The error messages, as the specification lists them: the two netrc errors, the three
  missing-cookie errors, the authentication failure, and the invalid-credentials message of
  \<^verbatim>\<open>--check\<close>.
\<close>

definition error_kind :: "kind \<Rightarrow> bool" where
  "error_kind k \<longleftrightarrow> k \<in> {Netrc_parse_error, Netrc_file_not_found, Missing_both_cookies,
     Missing_user_cookie, Missing_sig_cookie, Authentication_failure, Invalid_credentials}"

text \<open>
  The stream each \<^verbatim>\<open>print\<close> call of \<^verbatim>\<open>main\<close> names: stdout where the call has no
  \<^verbatim>\<open>file=\<close> argument, stderr where it says \<^verbatim>\<open>file=sys.stderr\<close>.
\<close>

definition stream_of :: "kind \<Rightarrow> stream" where
  "stream_of k = (if k \<in> {Cookie_line, Config_json, Credentials_valid, Invalid_credentials,
     Interactive_banner, Config_saved} then Stdout else Stderr)"

fun by_kind :: "event \<Rightarrow> bool" where
  "by_kind (Print s k t) = (s = stream_of k)"
| "by_kind ev = True"

text \<open>A statement all of whose prints go to the stream of their kind.\<close>

definition prints_by_kind :: "'a py \<Rightarrow> bool" where
  "prints_by_kind m \<longleftrightarrow>
     (\<forall>w. \<forall>ev \<in> set (trace (snd (m w))). ev \<in> set (trace w) \<or> by_kind ev)"

text \<open>The sample heap with an answer of \<^verbatim>\<open>whoami\<close> that reports failure.\<close>

definition ex_heap_denied :: "pyobj list" where
  "ex_heap_denied =
     ex_heap[3 := PDict [(''success'', PBool False), (''error'', PStr ''invalid keys'')]]"

text \<open>The sample heap with an empty \<^verbatim>\<open>logged-in-user\<close> cookie.\<close>

definition ex_heap_empty_user :: "pyobj list" where
  "ex_heap_empty_user =
     ex_heap[2 := PDict [(''logged-in-user'', PStr []), (''logged-in-sig'', PStr ''xyz'')]]"

section \<open>Properties\<close>

subsection \<open>Running statements\<close>

lemmas py_defs = py_return_def py_raise_def py_bind_def py_then_def py_when_def py_try_def
  print_def sys_exit_def call_def

lemmas ex_defs = ex_heap_def ex_session_def ex_args_def ex_env_def

lemma py_bind_eval: "m w = (Inr x, w') \<Longrightarrow> py_bind m f w = f x w'"
  by (simp add: py_bind_def)

lemma py_then_eval: "m w = (Inr (), w') \<Longrightarrow> py_then m n w = n w'"
  by (simp add: py_then_def py_bind_def)

lemma py_then_leaves:
  fixes m :: "unit py"
  assumes "isl (fst (m w))"
  shows "py_then m n w = m w"
proof -
  obtain r w' where mw: "m w = (r, w')" by (cases "m w")
  with assms obtain e where "r = Inl e" by (cases r) auto
  with mw show ?thesis by (simp add: py_then_def py_bind_def)
qed

lemma py_then_skip: "py_then (py_when False m) n = n"
  by (simp add: py_then_def py_when_def py_bind_def py_return_def)

lemma deref_append: "deref h v = Some obj \<Longrightarrow> deref (h @ xs) v = Some obj"
  by (auto simp: deref_def nth_append split: pyval.splits if_splits)

subsection \<open>No body of an \<^verbatim>\<open>if\<close> falls through\<close>

lemma leaves_bind: "(\<And>x w'. isl (fst (f x w'))) \<Longrightarrow> isl (fst (py_bind m f w))"
  by (cases "m w") (auto simp: py_bind_def split: sum.splits)

lemma leaves_then: "(\<And>w'. isl (fst (n w'))) \<Longrightarrow> isl (fst (py_then m n w))"
  by (simp add: py_then_def leaves_bind)

lemma leaves_exit: "isl (fst (sys_exit c w))"
  by (simp add: sys_exit_def py_raise_def)

lemma leaves_if:
  "isl (fst (m w)) \<Longrightarrow> isl (fst (n w)) \<Longrightarrow> isl (fst ((if b then m else n) w))"
  by simp

lemma print_cookies_body_leaves: "isl (fst (print_cookies_body E a w))"
  unfolding print_cookies_body_def
  by (intro leaves_bind leaves_then leaves_exit)

lemma show_body_leaves: "isl (fst (show_body E a w))"
  unfolding show_body_def
  by (intro leaves_bind leaves_then leaves_exit)

lemma check_body_leaves: "isl (fst (check_body E a w))"
  unfolding check_body_def
  by (intro leaves_bind leaves_then leaves_exit leaves_if)

lemma main_print_cookies: "print_cookies a \<Longrightarrow> main E a w = print_cookies_body E a w"
  by (simp add: main_def py_when_def py_then_leaves print_cookies_body_leaves)

lemma main_show: "\<not> print_cookies a \<Longrightarrow> show_opt a \<Longrightarrow> main E a w = show_body E a w"
  by (simp add: main_def py_then_skip) (simp add: py_when_def py_then_leaves show_body_leaves)

lemma main_check:
  "\<not> print_cookies a \<Longrightarrow> \<not> show_opt a \<Longrightarrow> check a \<Longrightarrow> main E a w = check_body E a w"
  by (simp add: main_def py_then_skip) (simp add: py_when_def py_then_leaves check_body_leaves)

lemma main_default:
  "\<not> print_cookies a \<Longrightarrow> \<not> show_opt a \<Longrightarrow> \<not> check a \<Longrightarrow> main E a = configure_body E a"
  by (simp add: main_def py_then_skip)

text \<open>
  C9. Whatever the flags, \<^verbatim>\<open>main\<close> runs exactly the action selected by the first of
  \<^verbatim>\<open>print_cookies\<close>, \<^verbatim>\<open>show\<close>, \<^verbatim>\<open>check\<close> that is set (the default action when none
  is): its result and its effects are those of that action alone. In particular
  \<^verbatim>\<open>--print-cookies\<close> cuts off every other action, and \<^verbatim>\<open>--netrc\<close> has no part in the
  selection.
\<close>

theorem main_runs_selected_action:
  "main E a w = run_action (selected a) E a w \<and> selected (a\<lparr>netrc := n\<rparr>) = selected a"
proof
  show "main E a w = run_action (selected a) E a w"
  proof (cases "print_cookies a")
    case True
    then show ?thesis by (simp add: selected_def main_print_cookies)
  next
    case pc: False
    show ?thesis
    proof (cases "show_opt a")
      case True
      with pc show ?thesis by (simp add: selected_def main_show)
    next
      case sh: False
      show ?thesis
      proof (cases "check a")
        case True
        with pc sh show ?thesis by (simp add: selected_def main_check)
      next
        case False
        with pc sh show ?thesis by (simp add: selected_def main_default)
      qed
    qed
  qed
  show "selected (a\<lparr>netrc := n\<rparr>) = selected a"
    by (simp add: selected_def)
qed

subsection \<open>The default action\<close>

text \<open>
  C6. With \<^verbatim>\<open>--netrc\<close> and no action flag, when \<^verbatim>\<open>netrc.netrc()\<close> raises
  \<^verbatim>\<open>FileNotFoundError\<close> the command prints the message
  \<^verbatim>\<open>error: .netrc file not found.\<close> on stderr (after the netrc banner, also on stderr)
  and exits with code 1.
\<close>

theorem netrc_file_not_found:
  assumes "\<not> print_cookies a" "\<not> show_opt a" "\<not> check a" "netrc a"
    and "netrc_netrc E = Inl FileNotFoundError"
  shows "main E a \<lparr>heap = h, trace = []\<rparr> =
    (Inl (SystemExit (Some 1)),
     \<lparr>heap = h, trace =
        [Print Stderr Netrc_banner ''Configuring 'ia' with netrc file...'',
         Call_netrc,
         Print Stderr Netrc_file_not_found ''error: .netrc file not found.'']\<rparr>)"
  using assms by (simp add: main_default configure_body_def read_netrc_def py_defs)

theorem netrc_file_not_found_witness:
  "main ex_env (ex_args\<lparr>netrc := True\<rparr>) \<lparr>heap = ex_heap, trace = []\<rparr> =
    (Inl (SystemExit (Some 1)),
     \<lparr>heap = ex_heap, trace =
        [Print Stderr Netrc_banner ''Configuring 'ia' with netrc file...'',
         Call_netrc,
         Print Stderr Netrc_file_not_found ''error: .netrc file not found.'']\<rparr>)"
  using netrc_file_not_found [of "ex_args\<lparr>netrc := True\<rparr>" ex_env ex_heap]
  by (simp add: ex_args_def ex_env_def)




text \<open>
  C5. With \<^verbatim>\<open>--netrc\<close>, a netrc file that parses and has no entry for
  \<^verbatim>\<open>archive.org\<close> makes \<^verbatim>\<open>n.hosts["archive.org"]\<close> raise \<^verbatim>\<open>KeyError\<close>. Neither
  \<^verbatim>\<open>except\<close> clause around \<^verbatim>\<open>netrc.netrc()\<close> covers the subscript and the outer
  clause names \<^verbatim>\<open>AuthenticationError\<close> only, so the exception leaves \<^verbatim>\<open>main\<close>: no
  error message is printed and there is no \<^verbatim>\<open>SystemExit\<close>.
\<close>

theorem netrc_without_archive_org_entry:
  "main (ex_env\<lparr>netrc_netrc := Inr [(''example.org'', ''bob'', None, Some ''pw'')]\<rparr>)
     (ex_args\<lparr>netrc := True\<rparr>) \<lparr>heap = ex_heap, trace = []\<rparr> =
     (Inl (KeyError ''archive.org''),
      \<lparr>heap = ex_heap, trace =
         [Print Stderr Netrc_banner ''Configuring 'ia' with netrc file...'', Call_netrc]\<rparr>)
   \<and> unhandled (Inl (KeyError ''archive.org''))"
  by (simp add: main_default configure_body_def read_netrc_def hosts_getitem_def py_defs
      ex_args_def ex_env_def unhandled_def)

subsection \<open>Printing the cookies\<close>

lemma truthy_append: "valid h v \<Longrightarrow> truthy (h @ xs) v = truthy h v"
  by (auto simp: truthy_def valid_def deref_def nth_append split: pyval.splits)

lemma print_cookies_run:
  assumes cfg: "deref h (config (session a)) = Some (PDict kvs)"
    and ck: "case map_of kvs ''cookies'' of None \<Rightarrow> ckvs = [] | Some c \<Rightarrow> deref h c = Some (PDict ckvs)"
    and u: "user = (case map_of ckvs ''logged-in-user'' of None \<Rightarrow> PNone | Some v \<Rightarrow> v)"
    and s: "sig = (case map_of ckvs ''logged-in-sig'' of None \<Rightarrow> PNone | Some v \<Rightarrow> v)"
    and v: "valid h user" "valid h sig"
  shows "print_cookies_body E a \<lparr>heap = h, trace = tr\<rparr> =
    (Inl (SystemExit (if truthy h user \<and> truthy h sig then None else Some 1)),
     \<lparr>heap = h @ [PDict [], PDict []], trace = tr @
       [if truthy h user \<and> truthy h sig then
          Print Stdout Cookie_line
            (''logged-in-user='' @ str_of E (h @ [PDict [], PDict []]) user @
             ''; logged-in-sig='' @ str_of E (h @ [PDict [], PDict []]) sig)
        else if \<not> truthy h user \<and> \<not> truthy h sig then
          Print Stderr Missing_both_cookies
            (''error: 'logged-in-user' and 'logged-in-sig' cookies '' @
             ''not found in config file, try reconfiguring.'')
        else if \<not> truthy h user then
          Print Stderr Missing_user_cookie
            (''error: 'logged-in-user' cookie not found in config file, '' @
             ''try reconfiguring.'')
        else
          Print Stderr Missing_sig_cookie
            (''error: 'logged-in-sig' cookie not found in config file, '' @
             ''try reconfiguring.'')]\<rparr>)"
proof -
  let ?h1 = "h @ [PDict []]"
  let ?h2 = "h @ [PDict [], PDict []]"
  define c1 where "c1 = (case map_of kvs ''cookies'' of None \<Rightarrow> PRef (length h) | Some c \<Rightarrow> c)"
  define c2 where "c2 = (case map_of kvs ''cookies'' of None \<Rightarrow> PRef (Suc (length h)) | Some c \<Rightarrow> c)"
  have cfg1: "deref ?h1 (config (session a)) = Some (PDict kvs)"
    using cfg by (rule deref_append)
  have g1: "get_or_new_dict (config (session a)) ''cookies'' \<lparr>heap = h, trace = tr\<rparr> =
     (Inr c1, \<lparr>heap = ?h1, trace = tr\<rparr>)"
    using cfg by (simp add: c1_def get_or_new_dict_def alloc_def py_bind_def py_return_def
        split: option.splits)
  have g2: "get_or_new_dict (config (session a)) ''cookies'' \<lparr>heap = ?h1, trace = tr\<rparr> =
     (Inr c2, \<lparr>heap = ?h2, trace = tr\<rparr>)"
    using cfg1 by (simp add: c2_def get_or_new_dict_def alloc_def py_bind_def py_return_def
        split: option.splits)
  have d1: "deref ?h1 c1 = Some (PDict ckvs)"
  proof (cases "map_of kvs ''cookies''")
    case None
    with ck show ?thesis by (simp add: c1_def deref_def)
  next
    case (Some c)
    with ck show ?thesis by (simp add: c1_def deref_append)
  qed
  have d2: "deref ?h2 c2 = Some (PDict ckvs)"
  proof (cases "map_of kvs ''cookies''")
    case None
    with ck show ?thesis by (simp add: c2_def deref_def nth_append)
  next
    case (Some c)
    with ck have "deref (h @ [PDict [], PDict []]) c = Some (PDict ckvs)"
      by (simp add: deref_append)
    with Some show ?thesis by (simp add: c2_def)
  qed
  have u1: "get c1 ''logged-in-user'' \<lparr>heap = ?h1, trace = tr\<rparr> = (Inr user, \<lparr>heap = ?h1, trace = tr\<rparr>)"
    using d1 u by (simp add: get_def)
  have s1: "get c2 ''logged-in-sig'' \<lparr>heap = ?h2, trace = tr\<rparr> = (Inr sig, \<lparr>heap = ?h2, trace = tr\<rparr>)"
    using d2 s by (simp add: get_def)
  have bu: "py_bool user \<lparr>heap = ?h2, trace = tr\<rparr> = (Inr (truthy h user), \<lparr>heap = ?h2, trace = tr\<rparr>)"
    using v(1) by (simp add: py_bool_def truthy_append)
  have bs: "py_bool sig \<lparr>heap = ?h2, trace = tr\<rparr> = (Inr (truthy h sig), \<lparr>heap = ?h2, trace = tr\<rparr>)"
    using v(2) by (simp add: py_bool_def truthy_append)
  note e =
    py_bind_eval[where m = "get_or_new_dict (config (session a)) ''cookies''"
      and w = "\<lparr>heap = h, trace = tr\<rparr>", OF g1]
    py_bind_eval[where m = "get c1 ''logged-in-user''" and w = "\<lparr>heap = ?h1, trace = tr\<rparr>", OF u1]
    py_bind_eval[where m = "get_or_new_dict (config (session a)) ''cookies''"
      and w = "\<lparr>heap = ?h1, trace = tr\<rparr>", OF g2]
    py_bind_eval[where m = "get c2 ''logged-in-sig''" and w = "\<lparr>heap = ?h2, trace = tr\<rparr>", OF s1]
    py_bind_eval[where m = "py_bool user" and w = "\<lparr>heap = ?h2, trace = tr\<rparr>", OF bu]
    py_bind_eval[where m = "py_bool sig" and w = "\<lparr>heap = ?h2, trace = tr\<rparr>", OF bs]
  show ?thesis
    unfolding print_cookies_body_def
    by (simp only: e) (simp add: py_defs str_def)
qed


text \<open>
  Both cookie entries are present, the user cookie is the empty string: no cookie line, the
  user-cookie error on stderr and exit code 1.
\<close>

theorem empty_cookie_is_not_printed:
  "deref ex_heap_empty_user (config (session (ex_args\<lparr>print_cookies := True\<rparr>)))
     = Some (PDict [(''s3'', PRef 1), (''cookies'', PRef 2)])
   \<and> deref ex_heap_empty_user (PRef 2)
     = Some (PDict [(''logged-in-user'', PStr []), (''logged-in-sig'', PStr ''xyz'')])
   \<and> main ex_env (ex_args\<lparr>print_cookies := True\<rparr>) \<lparr>heap = ex_heap_empty_user, trace = []\<rparr> =
     (Inl (SystemExit (Some 1)),
      \<lparr>heap = ex_heap_empty_user @ [PDict [], PDict []], trace =
         [Print Stderr Missing_user_cookie
            (''error: 'logged-in-user' cookie not found in config file, '' @
             ''try reconfiguring.'')]\<rparr>)"
proof -
  have d0: "deref ex_heap_empty_user (config (session (ex_args\<lparr>print_cookies := True\<rparr>)))
     = Some (PDict [(''s3'', PRef 1), (''cookies'', PRef 2)])"
    by (simp add: ex_heap_empty_user_def ex_defs deref_def)
  have d2: "deref ex_heap_empty_user (PRef 2)
     = Some (PDict [(''logged-in-user'', PStr []), (''logged-in-sig'', PStr ''xyz'')])"
    by (simp add: ex_heap_empty_user_def ex_defs deref_def)
  have "print_cookies_body ex_env (ex_args\<lparr>print_cookies := True\<rparr>)
      \<lparr>heap = ex_heap_empty_user, trace = []\<rparr> =
     (Inl (SystemExit (Some 1)),
      \<lparr>heap = ex_heap_empty_user @ [PDict [], PDict []], trace =
         [Print Stderr Missing_user_cookie
            (''error: 'logged-in-user' cookie not found in config file, '' @
             ''try reconfiguring.'')]\<rparr>)"
    using print_cookies_run[OF d0, where ckvs = "[(''logged-in-user'', PStr []), (''logged-in-sig'', PStr ''xyz'')]"
        and user = "PStr []" and sig = "PStr ''xyz''" and tr = "[]" and E = ex_env] d2
    by (simp add: valid_def truthy_def)
  with d0 d2 show ?thesis by (simp add: main_print_cookies)
qed

text \<open>
  C3, as the code has it. For a configuration that is a dictionary whose \<^verbatim>\<open>cookies\<close>
  section, if there is one, is a dictionary: \<^verbatim>\<open>--print-cookies\<close> prints
  \<^verbatim>\<open>logged-in-user=<user>; logged-in-sig=<sig>\<close> on stdout and exits 0 exactly when
  both cookies are present with a true value (a non-empty string, say); otherwise it exits 1
  after one of three messages on stderr, for both, the user cookie only, the sig cookie only
  being absent or false.
\<close>

theorem print_cookies_outcome:
  assumes "print_cookies a"
    and "deref h (config (session a)) = Some (PDict kvs)"
    and "case map_of kvs ''cookies'' of None \<Rightarrow> ckvs = [] | Some c \<Rightarrow> deref h c = Some (PDict ckvs)"
    and "user = (case map_of ckvs ''logged-in-user'' of None \<Rightarrow> PNone | Some v \<Rightarrow> v)"
    and "sig = (case map_of ckvs ''logged-in-sig'' of None \<Rightarrow> PNone | Some v \<Rightarrow> v)"
    and "valid h user" "valid h sig"
  shows "main E a \<lparr>heap = h, trace = []\<rparr> =
    (Inl (SystemExit (if truthy h user \<and> truthy h sig then None else Some 1)),
     \<lparr>heap = h @ [PDict [], PDict []], trace =
       [if truthy h user \<and> truthy h sig then
          Print Stdout Cookie_line
            (''logged-in-user='' @ str_of E (h @ [PDict [], PDict []]) user @
             ''; logged-in-sig='' @ str_of E (h @ [PDict [], PDict []]) sig)
        else if \<not> truthy h user \<and> \<not> truthy h sig then
          Print Stderr Missing_both_cookies
            (''error: 'logged-in-user' and 'logged-in-sig' cookies '' @
             ''not found in config file, try reconfiguring.'')
        else if \<not> truthy h user then
          Print Stderr Missing_user_cookie
            (''error: 'logged-in-user' cookie not found in config file, '' @
             ''try reconfiguring.'')
        else
          Print Stderr Missing_sig_cookie
            (''error: 'logged-in-sig' cookie not found in config file, '' @
             ''try reconfiguring.'')]\<rparr>)"
  using print_cookies_run[OF assms(2-7), of E "[]"] assms(1)
  by (simp add: main_print_cookies)

theorem print_cookies_outcome_witness:
  "main ex_env (ex_args\<lparr>print_cookies := True\<rparr>) \<lparr>heap = ex_heap, trace = []\<rparr> =
    (Inl (SystemExit None),
     \<lparr>heap = ex_heap @ [PDict [], PDict []], trace =
       [Print Stdout Cookie_line ''logged-in-user=alice; logged-in-sig=xyz'']\<rparr>)"
  using print_cookies_outcome[of "ex_args\<lparr>print_cookies := True\<rparr>" ex_heap
      "[(''s3'', PRef 1), (''cookies'', PRef 2)]"
      "[(''logged-in-user'', PStr ''alice''), (''logged-in-sig'', PStr ''xyz'')]"
      "PStr ''alice''" "PStr ''xyz''" ex_env]
  by (simp add: ex_defs deref_def valid_def truthy_def str_of_def)

lemma truthy_update_other: "x \<noteq> PRef cc \<Longrightarrow> truthy (h[cc := obj]) x = truthy h x"
  by (auto simp: truthy_def deref_def split: pyval.splits)

lemma truthy_update_dict:
  "h ! cc = PDict old \<Longrightarrow> old \<noteq> [] \<Longrightarrow> new \<noteq> [] \<Longrightarrow>
   truthy (h[cc := PDict new]) x = truthy h x"
proof (cases "x = PRef cc")
  case False
  then show ?thesis by (rule truthy_update_other)
next
  case True
  assume "h ! cc = PDict old" "old \<noteq> []" "new \<noteq> []"
  with True show ?thesis by (simp add: truthy_def deref_def)
qed

lemma valid_update: "valid (h[cc := obj]) x = valid h x"
  by (simp add: valid_def split: pyval.splits)

lemma map_of_delete_other: "k' \<noteq> k \<Longrightarrow> map_of (AList.delete k al) k' = map_of al k'"
  by (simp add: AList.delete_conv')

lemma map_of_delete_same: "map_of (AList.delete k al) k = None"
  by (simp add: AList.delete_conv')

lemma truthy_after_delete:
  assumes "cc < length h" "h ! cc = PDict ckvs" "k' \<noteq> k"
    and "x = (case map_of ckvs k' of None \<Rightarrow> PNone | Some v \<Rightarrow> v)"
  shows "truthy (h[cc := PDict (AList.delete k ckvs)]) x = truthy h x"
proof (cases "x = PRef cc")
  case False
  then show ?thesis by (rule truthy_update_other)
next
  case True
  with assms(4) have m: "map_of ckvs k' = Some (PRef cc)"
    by (simp split: option.splits)
  then have "map_of (AList.delete k ckvs) k' = Some (PRef cc)"
    using assms(3) by (simp add: map_of_delete_other)
  then have "AList.delete k ckvs \<noteq> []" by auto
  moreover from m have "ckvs \<noteq> []" by auto
  ultimately show ?thesis using assms(2) by (simp add: truthy_update_dict)
qed

text \<open>
  C10. A cookie that is present with a false value (an empty string, \<^verbatim>\<open>None\<close>, 0, an
  empty container) counts as missing. The run prints no cookie line: it exits 1 after the
  one message on stderr that belongs to that cookie being missing, which is the message
  for this cookie alone when the other cookie is true and the message for both when the
  other one is absent or false as well. Its result and output are those of the run on the
  configuration with that entry deleted.
\<close>

theorem falsy_cookie_counts_as_missing:
  assumes pc: "print_cookies a"
    and cfg: "config (session a) = PRef ca" "ca < length h" "h ! ca = PDict kvs"
    and ck: "map_of kvs ''cookies'' = Some (PRef cc)" "cc < length h" "h ! cc = PDict ckvs"
      "cc \<noteq> ca"
    and u: "user = (case map_of ckvs ''logged-in-user'' of None \<Rightarrow> PNone | Some v \<Rightarrow> v)"
    and s: "sig = (case map_of ckvs ''logged-in-sig'' of None \<Rightarrow> PNone | Some v \<Rightarrow> v)"
    and val: "valid h user" "valid h sig"
    and k: "k = ''logged-in-user'' \<or> k = ''logged-in-sig''"
    and v: "map_of ckvs k = Some v" "\<not> truthy h v"
    and h': "h' = h[cc := PDict (AList.delete k ckvs)]"
  shows "main E a \<lparr>heap = h, trace = []\<rparr> =
      (Inl (SystemExit (Some 1)),
       \<lparr>heap = h @ [PDict [], PDict []], trace =
         [if k = ''logged-in-user'' then
            (if truthy h sig then
               Print Stderr Missing_user_cookie
                 (''error: 'logged-in-user' cookie not found in config file, '' @
                  ''try reconfiguring.'')
             else
               Print Stderr Missing_both_cookies
                 (''error: 'logged-in-user' and 'logged-in-sig' cookies '' @
                  ''not found in config file, try reconfiguring.''))
          else
            (if truthy h user then
               Print Stderr Missing_sig_cookie
                 (''error: 'logged-in-sig' cookie not found in config file, '' @
                  ''try reconfiguring.'')
             else
               Print Stderr Missing_both_cookies
                 (''error: 'logged-in-user' and 'logged-in-sig' cookies '' @
                  ''not found in config file, try reconfiguring.''))]\<rparr>)
    \<and> fst (main E a \<lparr>heap = h, trace = []\<rparr>) = fst (main E a \<lparr>heap = h', trace = []\<rparr>)
    \<and> trace (snd (main E a \<lparr>heap = h, trace = []\<rparr>))
        = trace (snd (main E a \<lparr>heap = h', trace = []\<rparr>))"
proof -
  define user' where "user' = (case map_of (AList.delete k ckvs) ''logged-in-user'' of None \<Rightarrow> PNone | Some v \<Rightarrow> v)"
  define sig' where "sig' = (case map_of (AList.delete k ckvs) ''logged-in-sig'' of None \<Rightarrow> PNone | Some v \<Rightarrow> v)"
  have d0: "deref h (config (session a)) = Some (PDict kvs)"
    using cfg by (simp add: deref_def)
  have d1: "case map_of kvs ''cookies'' of None \<Rightarrow> ckvs = [] | Some c \<Rightarrow> deref h c = Some (PDict ckvs)"
    using ck by (simp add: deref_def)
  have d0': "deref h' (config (session a)) = Some (PDict kvs)"
    using cfg ck(4) by (simp add: deref_def h')
  have d1': "case map_of kvs ''cookies'' of None \<Rightarrow> AList.delete k ckvs = []
       | Some c \<Rightarrow> deref h' c = Some (PDict (AList.delete k ckvs))"
    using ck by (simp add: deref_def h')
  have val': "valid h' user'" "valid h' sig'"
    using val k v(1) unfolding h' valid_update user'_def sig'_def u s
    by (auto simp: map_of_delete_other map_of_delete_same valid_def)
  note r = print_cookies_run[OF d0 d1 u s val, of E "[]"]
  note r' = print_cookies_run[OF d0' d1' user'_def sig'_def val', of E "[]"]
  have falsy: "\<not> (truthy h user \<and> truthy h sig)"
    using k v u s by auto
  have same: "truthy h' user' = truthy h user \<and> truthy h' sig' = truthy h sig"
  proof (rule disjE[OF k])
    assume kk: "k = ''logged-in-user''"
    have "user' = PNone" by (simp add: user'_def kk map_of_delete_same)
    then have 1: "truthy h' user' = truthy h user"
      using v u kk by (simp add: truthy_def)
    have "sig' = sig" by (simp add: sig'_def s kk map_of_delete_other)
    then have 2: "truthy h' sig' = truthy h sig"
      unfolding h' using truthy_after_delete[OF ck(2,3) _ s, of k] kk by simp
    from 1 2 show ?thesis ..
  next
    assume kk: "k = ''logged-in-sig''"
    have "sig' = PNone" by (simp add: sig'_def kk map_of_delete_same)
    then have 1: "truthy h' sig' = truthy h sig"
      using v s kk by (simp add: truthy_def)
    have "user' = user" by (simp add: user'_def u kk map_of_delete_other)
    then have 2: "truthy h' user' = truthy h user"
      unfolding h' using truthy_after_delete[OF ck(2,3) _ u, of k] kk by simp
    from 2 1 show ?thesis ..
  qed
  show ?thesis
  proof (rule disjE[OF k])
    assume kk: "k = ''logged-in-user''"
    with v u have "\<not> truthy h user" by simp
    with kk same show ?thesis by (simp add: main_print_cookies[OF pc] r r')
  next
    assume kk: "k = ''logged-in-sig''"
    with v s have "\<not> truthy h sig" by simp
    with kk same show ?thesis by (simp add: main_print_cookies[OF pc] r r')
  qed
qed



theorem falsy_cookie_counts_as_missing_witness:
  "main ex_env (ex_args\<lparr>print_cookies := True\<rparr>) \<lparr>heap = ex_heap_empty_user, trace = []\<rparr> =
      (Inl (SystemExit (Some 1)),
       \<lparr>heap = ex_heap_empty_user @ [PDict [], PDict []], trace =
         [Print Stderr Missing_user_cookie
            (''error: 'logged-in-user' cookie not found in config file, '' @
             ''try reconfiguring.'')]\<rparr>)
   \<and> fst (main ex_env (ex_args\<lparr>print_cookies := True\<rparr>) \<lparr>heap = ex_heap_empty_user, trace = []\<rparr>)
     = fst (main ex_env (ex_args\<lparr>print_cookies := True\<rparr>)
         \<lparr>heap = ex_heap_empty_user[2 := PDict (AList.delete ''logged-in-user''
           [(''logged-in-user'', PStr []), (''logged-in-sig'', PStr ''xyz'')])], trace = []\<rparr>)
   \<and> trace (snd (main ex_env (ex_args\<lparr>print_cookies := True\<rparr>)
         \<lparr>heap = ex_heap_empty_user, trace = []\<rparr>))
     = trace (snd (main ex_env (ex_args\<lparr>print_cookies := True\<rparr>)
         \<lparr>heap = ex_heap_empty_user[2 := PDict (AList.delete ''logged-in-user''
           [(''logged-in-user'', PStr []), (''logged-in-sig'', PStr ''xyz'')])], trace = []\<rparr>))"
proof -
  let ?a = "ex_args\<lparr>print_cookies := True\<rparr>"
  let ?ckvs = "[(''logged-in-user'', PStr []), (''logged-in-sig'', PStr ''xyz'')]"
  have 1: "print_cookies ?a" by simp
  have 2: "config (session ?a) = PRef 0" by (simp add: ex_args_def ex_session_def)
  have 3: "0 < length ex_heap_empty_user" by (simp add: ex_heap_empty_user_def ex_heap_def)
  have 4: "ex_heap_empty_user ! 0 = PDict [(''s3'', PRef 1), (''cookies'', PRef 2)]"
    by (simp add: ex_heap_empty_user_def ex_heap_def)
  have 5: "map_of [(''s3'', PRef 1), (''cookies'', PRef 2)] ''cookies'' = Some (PRef 2)" by simp
  have 6: "2 < length ex_heap_empty_user" by (simp add: ex_heap_empty_user_def ex_heap_def)
  have 7: "ex_heap_empty_user ! 2 = PDict ?ckvs"
    by (simp add: ex_heap_empty_user_def ex_heap_def)
  have 8: "(2::nat) \<noteq> 0" by simp
  have 9: "PStr [] = (case map_of ?ckvs ''logged-in-user'' of None \<Rightarrow> PNone | Some v \<Rightarrow> v)"
    by simp
  have 10: "PStr ''xyz'' = (case map_of ?ckvs ''logged-in-sig'' of None \<Rightarrow> PNone | Some v \<Rightarrow> v)"
    by simp
  have 11: "valid ex_heap_empty_user (PStr [])" "valid ex_heap_empty_user (PStr ''xyz'')"
    by (simp_all add: valid_def)
  have 12: "''logged-in-user'' = ''logged-in-user'' \<or> ''logged-in-user'' = ''logged-in-sig''"
    by simp
  have 13: "map_of ?ckvs ''logged-in-user'' = Some (PStr [])" by simp
  have 14: "\<not> truthy ex_heap_empty_user (PStr [])" by (simp add: truthy_def)
  have 15: "truthy ex_heap_empty_user (PStr ''xyz'')" by (simp add: truthy_def)
  show ?thesis
    by (rule falsy_cookie_counts_as_missing[OF 1 2 3 4 5 6 7 8 9 10 11 12 13 14 refl, of ex_env,
          unfolded if_P[OF refl] if_P[OF 15]])
qed

subsection \<open>Showing the configuration: the session's objects stay as they are\<close>

lemma prefix_kept_length: "prefix_kept h0 w \<Longrightarrow> length h0 \<le> length (heap w)"
proof -
  assume "prefix_kept h0 w"
  then have "length (take (length h0) (heap w)) = length h0"
    by (simp add: prefix_kept_def)
  then show ?thesis by simp
qed

lemma keeps_same_heap: "(\<And>w. heap (snd (m w)) = heap w) \<Longrightarrow> keeps h0 m"
  by (simp add: keeps_def prefix_kept_def)

lemma keeps_return: "keeps h0 (py_return x)"
  by (rule keeps_same_heap) (simp add: py_return_def)

lemma keeps_exit: "keeps h0 (sys_exit c)"
  by (rule keeps_same_heap) (simp add: sys_exit_def py_raise_def)

lemma keeps_print: "keeps h0 (print s k t)"
  by (rule keeps_same_heap) (simp add: print_def)

lemma keeps_contains: "keeps h0 (contains k x)"
  by (rule keeps_same_heap) (simp add: contains_def split: option.splits pyobj.splits pyval.splits)

lemma keeps_getitem: "keeps h0 (getitem x k)"
  by (rule keeps_same_heap) (simp add: getitem_def split: option.splits pyobj.splits)

lemma keeps_dumps: "keeps h0 (dumps E x)"
  by (rule keeps_same_heap) (simp add: dumps_def split: option.splits)

lemma keeps_bind:
  assumes "keeps h0 m" "\<And>x. keeps h0 (f x)"
  shows "keeps h0 (py_bind m f)"
  unfolding keeps_def
proof (intro allI impI)
  fix w assume w: "prefix_kept h0 w"
  obtain r w' where mw: "m w = (r, w')" by (cases "m w")
  with assms(1) w have w': "prefix_kept h0 w'" by (auto simp: keeps_def dest!: spec[of _ w])
  show "prefix_kept h0 (snd (py_bind m f w))"
  proof (cases r)
    case (Inl e)
    with mw w' show ?thesis by (simp add: py_bind_def)
  next
    case (Inr x)
    with mw w' assms(2)[of x] show ?thesis by (simp add: py_bind_def keeps_def)
  qed
qed

lemma keeps_then: "keeps h0 m \<Longrightarrow> keeps h0 n \<Longrightarrow> keeps h0 (py_then m n)"
  by (simp add: py_then_def keeps_bind)

lemma keeps_when: "keeps h0 m \<Longrightarrow> keeps h0 (py_when b m)"
  by (simp add: py_when_def keeps_return)

text \<open>A copy is a new object: the old ones stay, and the reference returned is fresh.\<close>

lemma keeps_bind_copy:
  assumes "\<And>x. fresh h0 x \<Longrightarrow> keeps h0 (f x)"
  shows "keeps h0 (py_bind (copy y) f)"
  unfolding keeps_def
proof (intro allI impI)
  fix w assume w: "prefix_kept h0 w"
  show "prefix_kept h0 (snd (py_bind (copy y) f w))"
  proof (cases "deref (heap w) y")
    case None
    with w show ?thesis by (simp add: py_bind_def copy_def)
  next
    case (Some obj)
    let ?w' = "w\<lparr>heap := heap w @ [obj]\<rparr>"
    have f: "fresh h0 (PRef (length (heap w)))"
      using prefix_kept_length[OF w] by (simp add: fresh_def)
    have "prefix_kept h0 ?w'"
      using w prefix_kept_length[OF w] by (simp add: prefix_kept_def)
    with assms[OF f] have "prefix_kept h0 (snd (f (PRef (length (heap w))) ?w'))"
      by (simp add: keeps_def)
    with Some show ?thesis by (simp add: py_bind_def copy_def alloc_def)
  qed
qed

text \<open>An item assignment to a fresh object leaves the old ones as they are.\<close>

lemma keeps_setitem: "fresh h0 x \<Longrightarrow> keeps h0 (setitem x k v)"
  by (auto simp: keeps_def prefix_kept_def setitem_def fresh_def
      split: option.splits pyobj.splits pyval.splits)

lemma keeps_show_body: "keeps h0 (show_body E a)"
  unfolding show_body_def
  by (intro keeps_bind_copy keeps_then keeps_when keeps_bind keeps_contains keeps_getitem
      keeps_dumps keeps_print keeps_exit keeps_setitem) assumption+

text \<open>
  C2. With \<^verbatim>\<open>--show\<close> (and no \<^verbatim>\<open>--print-cookies\<close>), whatever the configuration is,
  every object the heap had before the run (the session's configuration, its \<^verbatim>\<open>s3\<close>
  and \<^verbatim>\<open>cookies\<close> dictionaries and all others) is the same after it: the run writes
  to the copies it makes only.
\<close>

theorem show_keeps_session_config:
  assumes "\<not> print_cookies a" "show_opt a"
  shows "take (length h) (heap (snd (main E a \<lparr>heap = h, trace = tr\<rparr>))) = h"
proof -
  have "prefix_kept h \<lparr>heap = h, trace = tr\<rparr>" by (simp add: prefix_kept_def)
  with keeps_show_body[of h E a] have "prefix_kept h (snd (show_body E a \<lparr>heap = h, trace = tr\<rparr>))"
    unfolding keeps_def by blast
  with assms show ?thesis by (simp add: main_show prefix_kept_def)
qed


theorem show_keeps_session_config_witness:
  "take (length ex_heap)
     (heap (snd (main ex_env (ex_args\<lparr>show_opt := True\<rparr>) \<lparr>heap = ex_heap, trace = []\<rparr>)))
   = ex_heap"
  by (rule show_keeps_session_config) (simp_all add: ex_args_def)

subsection \<open>Showing the configuration: what is printed\<close>

lemma snapshot_entries_Nil: "snapshot_entries h P [] = Some []"
  by (simp add: snapshot_entries_def)

lemma snapshot_entries_Cons:
  "snapshot_entries h P ((k, v) # kvs) =
     (case snapshot h P v of None \<Rightarrow> None
      | Some tv \<Rightarrow> map_option ((#) (k, tv)) (snapshot_entries h P kvs))"
  by (simp add: snapshot_entries_def split: option.splits)

lemma snapshot_dict:
  "a < length h \<Longrightarrow> a \<notin> set P \<Longrightarrow> h ! a = PDict kvs \<Longrightarrow>
   snapshot h P (PRef a) = map_option JDict (snapshot_entries h (a # P) kvs)"
  by (simp add: snapshot_entries_def)

lemma those_map_mono:
  "(\<And>x t. x \<in> set xs \<Longrightarrow> f x = Some t \<Longrightarrow> g x = Some t) \<Longrightarrow>
   those (map f xs) = Some ts \<Longrightarrow> those (map g xs) = Some ts"
proof (induction xs arbitrary: ts)
  case Nil
  then show ?case by simp
next
  case (Cons x xs)
  from Cons.prems(2) obtain t ts' where t: "f x = Some t" "those (map f xs) = Some ts'" "ts = t # ts'"
    by (auto split: option.splits)
  from Cons.prems(1)[of x t] t(1) have "g x = Some t" by simp
  moreover from Cons.IH[OF _ t(2)] Cons.prems(1) have "those (map g xs) = Some ts'" by simp
  ultimately show ?case using t(3) by simp
qed

lemma snapshot_frame:
  "snapshot h P v = Some t \<Longrightarrow> length h \<le> length h' \<Longrightarrow>
   (\<And>a. a < length h \<Longrightarrow> a \<notin> set P \<Longrightarrow> h' ! a = h ! a) \<Longrightarrow>
   (\<And>a. a \<in> set P' \<Longrightarrow> a < length h \<Longrightarrow> a \<in> set P) \<Longrightarrow>
   snapshot h' P' v = Some t"
proof (induction h P v arbitrary: t P' rule: snapshot.induct)
  case (5 h P a)
  from "5.prems"(1) have a: "a < length h" "a \<notin> set P"
    by (auto split: if_splits)
  with "5.prems" have a': "a < length h'" "a \<notin> set P'" "h' ! a = h ! a"
    by auto
  have sub: "\<And>x tx. snapshot h (a # P) x = Some tx \<Longrightarrow>
      (\<And>t P'. snapshot h (a # P) x = Some t \<Longrightarrow> length h \<le> length h' \<Longrightarrow>
        (\<And>b. b < length h \<Longrightarrow> b \<notin> set (a # P) \<Longrightarrow> h' ! b = h ! b) \<Longrightarrow>
        (\<And>b. b \<in> set P' \<Longrightarrow> b < length h \<Longrightarrow> b \<in> set (a # P)) \<Longrightarrow>
        snapshot h' P' x = Some t) \<Longrightarrow>
      snapshot h' (a # P') x = Some tx"
  proof -
    fix x tx
    assume s: "snapshot h (a # P) x = Some tx"
      and ih: "\<And>t P'. snapshot h (a # P) x = Some t \<Longrightarrow> length h \<le> length h' \<Longrightarrow>
        (\<And>b. b < length h \<Longrightarrow> b \<notin> set (a # P) \<Longrightarrow> h' ! b = h ! b) \<Longrightarrow>
        (\<And>b. b \<in> set P' \<Longrightarrow> b < length h \<Longrightarrow> b \<in> set (a # P)) \<Longrightarrow>
        snapshot h' P' x = Some t"
    show "snapshot h' (a # P') x = Some tx"
    proof (rule ih[OF s "5.prems"(2)])
      fix b assume "b < length h" "b \<notin> set (a # P)"
      then show "h' ! b = h ! b" using "5.prems"(3) by simp
    next
      fix b assume "b \<in> set (a # P')" "b < length h"
      then show "b \<in> set (a # P)" using "5.prems"(4) by auto
    qed
  qed
  show ?case
  proof (cases "h ! a")
    case (PDict kvs)
    from "5.prems"(1) a PDict obtain tkvs where
      tk: "those (map (\<lambda>kv. map_option (Pair (fst kv)) (snapshot h (a # P) (snd kv))) kvs) = Some tkvs"
      and t: "t = JDict tkvs"
      by auto
    have "those (map (\<lambda>kv. map_option (Pair (fst kv)) (snapshot h' (a # P') (snd kv))) kvs) = Some tkvs"
    proof (rule those_map_mono[OF _ tk])
      fix kv t' assume kv: "kv \<in> set kvs"
        and "map_option (Pair (fst kv)) (snapshot h (a # P) (snd kv)) = Some t'"
      then obtain tv where tv: "snapshot h (a # P) (snd kv) = Some tv" "t' = (fst kv, tv)"
        by auto
      have "snapshot h' (a # P') (snd kv) = Some tv"
        by (rule sub[OF tv(1)]) (rule "5.IH"(1)[OF conjI[OF a] PDict kv])
      with tv(2) show "map_option (Pair (fst kv)) (snapshot h' (a # P') (snd kv)) = Some t'"
        by simp
    qed
    with a' PDict t show ?thesis by simp
  next
    case (PList vs)
    from "5.prems"(1) a PList obtain tvs where
      tk: "those (map (snapshot h (a # P)) vs) = Some tvs" and t: "t = JList tvs"
      by auto
    have "those (map (snapshot h' (a # P')) vs) = Some tvs"
    proof (rule those_map_mono[OF _ tk])
      fix x tx assume x: "x \<in> set vs" and s: "snapshot h (a # P) x = Some tx"
      show "snapshot h' (a # P') x = Some tx"
        by (rule sub[OF s]) (rule "5.IH"(2)[OF conjI[OF a] PList x])
    qed
    with a' PList t show ?thesis by simp
  qed
qed simp_all

lemma show_body_redact_stmt:
  "show_body E a =
     py_bind (copy (config (session a))) (\<lambda>cfg.
     py_then (redact_stmt cfg ''s3'' ''secret'')
    (py_then (redact_stmt cfg ''cookies'' ''logged-in-sig'')
    (py_then (py_bind (dumps E cfg) (\<lambda>text. print Stdout Config_json text))
       (sys_exit None))))"
  by (simp add: show_body_def redact_stmt_def)

lemma snapshot_entries_frame:
  assumes "snapshot_entries h P kvs = Some tkvs" "length h \<le> length h'"
    and "\<And>a. a < length h \<Longrightarrow> a \<notin> set P \<Longrightarrow> h' ! a = h ! a"
    and "\<And>a. a \<in> set P' \<Longrightarrow> a < length h \<Longrightarrow> a \<in> set P"
  shows "snapshot_entries h' P' kvs = Some tkvs"
  unfolding snapshot_entries_def
proof (rule those_map_mono[OF _ assms(1)[unfolded snapshot_entries_def]])
  fix kv t' assume "map_option (Pair (fst kv)) (snapshot h P (snd kv)) = Some t'"
  then obtain tv where tv: "snapshot h P (snd kv) = Some tv" "t' = (fst kv, tv)"
    by auto
  have "snapshot h' P' (snd kv) = Some tv"
    using tv(1) assms(2) by (rule snapshot_frame) (use assms(3,4) in auto)
  with tv(2) show "map_option (Pair (fst kv)) (snapshot h' P' (snd kv)) = Some t'"
    by simp
qed

lemma snapshot_entries_keys:
  "snapshot_entries h P kvs = Some tkvs \<Longrightarrow> map fst tkvs = map fst kvs"
proof (induction kvs arbitrary: tkvs)
  case Nil
  then show ?case by (simp add: snapshot_entries_Nil)
next
  case (Cons kv kvs)
  obtain k v where kv: "kv = (k, v)" by (cases kv)
  from Cons.prems kv obtain tv ts where "snapshot h P v = Some tv"
    "snapshot_entries h P kvs = Some ts" "tkvs = (k, tv) # ts"
    by (auto simp: snapshot_entries_Cons split: option.splits)
  with Cons.IH[of ts] kv show ?case by simp
qed

lemma snapshot_entries_map_of:
  "snapshot_entries h P kvs = Some tkvs \<Longrightarrow>
   map_of tkvs k = (case map_of kvs k of None \<Rightarrow> None | Some v \<Rightarrow> snapshot h P v)"
proof (induction kvs arbitrary: tkvs)
  case Nil
  then show ?case by (simp add: snapshot_entries_Nil)
next
  case (Cons kv kvs)
  obtain k' v where kv: "kv = (k', v)" by (cases kv)
  from Cons.prems kv obtain tv ts where "snapshot h P v = Some tv"
    "snapshot_entries h P kvs = Some ts" "tkvs = (k', tv) # ts"
    by (auto simp: snapshot_entries_Cons split: option.splits)
  with Cons.IH[of ts] kv show ?case by simp
qed

lemma snapshot_entries_update:
  "snapshot_entries h P kvs = Some tkvs \<Longrightarrow> snapshot h P v = Some tv \<Longrightarrow>
   snapshot_entries h P (AList.update k v kvs) = Some (AList.update k tv tkvs)"
proof (induction kvs arbitrary: tkvs)
  case Nil
  then show ?case by (simp add: snapshot_entries_Nil snapshot_entries_Cons)
next
  case (Cons kv kvs)
  obtain k' v' where kv: "kv = (k', v')" by (cases kv)
  from Cons.prems(1) kv obtain tv' ts where t: "snapshot h P v' = Some tv'"
    "snapshot_entries h P kvs = Some ts" "tkvs = (k', tv') # ts"
    by (auto simp: snapshot_entries_Cons split: option.splits)
  show ?case
  proof (cases "k' = k")
    case True
    with kv t Cons.prems(2) show ?thesis by (simp add: snapshot_entries_Cons)
  next
    case False
    with kv t Cons.IH[OF t(2) Cons.prems(2)] show ?thesis
      by (simp add: snapshot_entries_Cons)
  qed
qed

lemma map_of_keys_None: "map fst xs = map fst ys \<Longrightarrow> (map_of xs k = None) = (map_of ys k = None)"
  by (metis list.set_map map_of_eq_None_iff)

lemma snapshot_dict_Some:
  assumes "snapshot h P (PRef a) = Some t" "a < length h" "h ! a = PDict kvs"
  obtains tkvs where "t = JDict tkvs" "snapshot_entries h (a # P) kvs = Some tkvs"
  using assms by (auto simp: snapshot_entries_def split: if_splits)

declare snapshot.simps(5) [simp del]

lemma redact_stmt_absent:
  assumes "n < length h" "h ! n = PDict kvs" "map_of kvs sec = None"
  shows "redact_stmt (PRef n) sec key \<lparr>heap = h, trace = tr\<rparr> = (Inr (), \<lparr>heap = h, trace = tr\<rparr>)"
  using assms by (simp add: redact_stmt_def py_defs contains_def deref_def)

lemma redact_stmt_present:
  assumes "n < length h" "h ! n = PDict kvs" "map_of kvs sec = Some (PRef s)"
    and "s < length h" "h ! s = PDict skvs"
  shows "redact_stmt (PRef n) sec key \<lparr>heap = h, trace = tr\<rparr> =
    (Inr (),
     \<lparr>heap = (h @ [PDict (if map_of skvs key \<noteq> None
                         then AList.update key (PStr ''REDACTED'') skvs else skvs)])
               [n := PDict (AList.update sec (PRef (length h)) kvs)],
      trace = tr\<rparr>)"
proof -
  let ?w = "\<lparr>heap = h, trace = tr\<rparr>"
  let ?w1 = "\<lparr>heap = h @ [PDict skvs], trace = tr\<rparr>"
  let ?skvs' = "if map_of skvs key \<noteq> None then AList.update key (PStr ''REDACTED'') skvs else skvs"
  let ?w2 = "\<lparr>heap = h @ [PDict ?skvs'], trace = tr\<rparr>"
  have 1: "contains sec (PRef n) ?w = (Inr True, ?w)"
    using assms by (simp add: contains_def deref_def)
  have 2: "getitem (PRef n) sec ?w = (Inr (PRef s), ?w)"
    using assms by (simp add: getitem_def deref_def)
  have 3: "copy (PRef s) ?w = (Inr (PRef (length h)), ?w1)"
    using assms by (simp add: copy_def alloc_def deref_def)
  have 4: "py_bind (contains key (PRef (length h))) (\<lambda>has_key.
           py_when has_key (setitem (PRef (length h)) key (PStr ''REDACTED''))) ?w1 = (Inr (), ?w2)"
    by (simp add: py_bind_def py_when_def py_return_def contains_def setitem_def deref_def)
  have 5: "setitem (PRef n) sec (PRef (length h)) ?w2 =
     (Inr (), \<lparr>heap = (h @ [PDict ?skvs'])[n := PDict (AList.update sec (PRef (length h)) kvs)], trace = tr\<rparr>)"
    using assms(1,2) by (simp add: setitem_def deref_def nth_append)
  note e =
    py_bind_eval[where m = "contains sec (PRef n)" and w = ?w, OF 1]
    py_bind_eval[where m = "getitem (PRef n) sec" and w = ?w, OF 2]
    py_bind_eval[where m = "copy (PRef s)" and w = ?w, OF 3]
  have "redact_stmt (PRef n) sec key ?w =
    py_then
      (py_bind (contains key (PRef (length h))) (\<lambda>has_key.
         py_when has_key (setitem (PRef (length h)) key (PStr ''REDACTED''))))
      (setitem (PRef n) sec (PRef (length h))) ?w1"
    unfolding redact_stmt_def by (simp only: e py_when_def if_True)
  also have "\<dots> = setitem (PRef n) sec (PRef (length h)) ?w2"
    by (rule py_then_eval) (rule 4)
  finally show ?thesis using 5 by simp
qed

lemma redact_stmt_snapshot:
  assumes n: "n < length h" "h ! n = PDict kvs"
    and t: "snapshot h [] (PRef n) = Some t"
    and s: "map_of kvs sec = Some (PRef s)" "s < length h" "h ! s = PDict skvs"
    and h': "h' = (h @ [PDict (if map_of skvs key \<noteq> None
                         then AList.update key (PStr ''REDACTED'') skvs else skvs)])
               [n := PDict (AList.update sec (PRef (length h)) kvs)]"
  shows "snapshot h' [] (PRef n) = Some (redact sec key t)"
proof -
  let ?m = "length h"
  let ?skvs' = "if map_of skvs key \<noteq> None then AList.update key (PStr ''REDACTED'') skvs else skvs"
  let ?kvs' = "AList.update sec (PRef ?m) kvs"
  from snapshot_dict_Some[OF t n] obtain tkvs
    where tkvs: "t = JDict tkvs" and E0: "snapshot_entries h [n] kvs = Some tkvs"
    by blast
  have "map_of tkvs sec = snapshot h [n] (PRef s)"
    using snapshot_entries_map_of[OF E0, of sec] s(1) by simp
  moreover have "map_of tkvs sec \<noteq> None"
    using map_of_keys_None[OF snapshot_entries_keys[OF E0], of sec] s(1) by simp
  ultimately obtain ts where ts: "snapshot h [n] (PRef s) = Some ts" "map_of tkvs sec = Some ts"
    by (cases "snapshot h [n] (PRef s)") auto
  from ts(1) have sn: "s \<noteq> n" by (auto simp: snapshot.simps(5) split: if_splits)
  from snapshot_dict_Some[OF ts(1) s(2,3)] obtain tskvs where tskvs: "ts = JDict tskvs"
    and E1: "snapshot_entries h [s, n] skvs = Some tskvs"
    by blast
  have len: "length h' = Suc ?m" by (simp add: h')
  have hn: "h' ! n = PDict ?kvs'" using n(1) by (simp add: h')
  have hm: "h' ! ?m = PDict ?skvs'" using n(1) by (simp add: h' nth_append)
  have old: "\<And>a. a < ?m \<Longrightarrow> a \<noteq> n \<Longrightarrow> h' ! a = h ! a"
    by (simp add: h' nth_append)
  have F1: "snapshot_entries h' [n] kvs = Some tkvs"
    by (rule snapshot_entries_frame[OF E0]) (simp_all add: len old)
  have F2: "snapshot_entries h' [?m, n] skvs = Some tskvs"
    by (rule snapshot_entries_frame[OF E1]) (auto simp: len old)
  let ?tskvs' = "if map_of skvs key \<noteq> None then AList.update key (JStr ''REDACTED'') tskvs else tskvs"
  have F3: "snapshot_entries h' [?m, n] ?skvs' = Some ?tskvs'"
    using F2 snapshot_entries_update[OF F2, of "PStr ''REDACTED''" "JStr ''REDACTED''" key]
    by simp
  have F4: "snapshot h' [n] (PRef ?m) = Some (JDict ?tskvs')"
    using n(1) hm F3 by (simp add: snapshot_dict[where kvs = ?skvs'] len)
  have rk: "JDict ?tskvs' = redact_key key ts"
    using map_of_keys_None[OF snapshot_entries_keys[OF E1], of key]
    by (simp add: redact_key_def tskvs)
  have F5: "snapshot_entries h' [n] ?kvs' = Some (AList.update sec (redact_key key ts) tkvs)"
    using snapshot_entries_update[OF F1 F4, of sec] rk by simp
  have "snapshot h' [] (PRef n) = Some (JDict (AList.update sec (redact_key key ts) tkvs))"
    using n(1) hn F5 by (simp add: snapshot_dict[where kvs = ?kvs'] len)
  then show ?thesis
    using ts(2) by (simp add: redact_def tkvs)
qed

lemma redact_stmt_run:
  assumes n: "n < length h" "h ! n = PDict kvs"
    and t: "snapshot h [] (PRef n) = Some t"
    and sh: "case map_of kvs sec of None \<Rightarrow> True | Some v \<Rightarrow> (\<exists>d. deref h v = Some (PDict d))"
  shows "\<exists>h' kvs'. redact_stmt (PRef n) sec key \<lparr>heap = h, trace = tr\<rparr>
          = (Inr (), \<lparr>heap = h', trace = tr\<rparr>)
      \<and> n < length h' \<and> h' ! n = PDict kvs'
      \<and> snapshot h' [] (PRef n) = Some (redact sec key t)
      \<and> (\<forall>sec'. sec' \<noteq> sec \<longrightarrow> map_of kvs' sec' = map_of kvs sec')
      \<and> (\<forall>v. (\<exists>d. deref h v = Some (PDict d)) \<longrightarrow> (\<exists>d. deref h' v = Some (PDict d)))"
proof (cases "map_of kvs sec")
  case None
  from snapshot_dict_Some[OF t n] obtain tkvs
    where tkvs: "t = JDict tkvs" and E0: "snapshot_entries h [n] kvs = Some tkvs"
    by blast
  have "map_of tkvs sec = None"
    using map_of_keys_None[OF snapshot_entries_keys[OF E0], of sec] None by simp
  then have "redact sec key t = t" by (simp add: redact_def tkvs)
  with redact_stmt_absent[OF n None, of key tr] n t show ?thesis by auto
next
  case (Some v)
  with sh obtain skvs where "deref h v = Some (PDict skvs)" by auto
  then obtain s where s: "v = PRef s" "s < length h" "h ! s = PDict skvs"
    by (auto simp: deref_def split: pyval.splits if_splits)
  let ?h' = "(h @ [PDict (if map_of skvs key \<noteq> None
                         then AList.update key (PStr ''REDACTED'') skvs else skvs)])
               [n := PDict (AList.update sec (PRef (length h)) kvs)]"
  have m: "map_of kvs sec = Some (PRef s)" using Some s by simp
  have 1: "redact_stmt (PRef n) sec key \<lparr>heap = h, trace = tr\<rparr> = (Inr (), \<lparr>heap = ?h', trace = tr\<rparr>)"
    by (rule redact_stmt_present[OF n m s(2,3)])
  have 2: "snapshot ?h' [] (PRef n) = Some (redact sec key t)"
    by (rule redact_stmt_snapshot[OF n t m s(2,3) refl])
  have 3: "n < length ?h'" "?h' ! n = PDict (AList.update sec (PRef (length h)) kvs)"
    using n(1) by simp_all
  have 4: "\<forall>sec'. sec' \<noteq> sec \<longrightarrow> map_of (AList.update sec (PRef (length h)) kvs) sec' = map_of kvs sec'"
    by (simp add: update_conv')
  have 5: "\<forall>v. (\<exists>d. deref h v = Some (PDict d)) \<longrightarrow> (\<exists>d. deref ?h' v = Some (PDict d))"
  proof (intro allI impI)
    fix v assume "\<exists>d. deref h v = Some (PDict d)"
    then obtain d a where a: "v = PRef a" "a < length h" "h ! a = PDict d"
      by (auto simp: deref_def split: pyval.splits if_splits)
    show "\<exists>d. deref ?h' v = Some (PDict d)"
      using a by (cases "a = n") (simp_all add: deref_def nth_append)
  qed
  from 1 2 3 4 5 show ?thesis by blast
qed

lemma show_body_run:
  assumes c: "config (session a) = PRef c" "c < length h" "h ! c = PDict kvs"
    and t: "snapshot h [] (PRef c) = Some t"
    and s3: "case map_of kvs ''s3'' of None \<Rightarrow> True | Some v \<Rightarrow> (\<exists>d. deref h v = Some (PDict d))"
    and ck: "case map_of kvs ''cookies'' of None \<Rightarrow> True
             | Some v \<Rightarrow> (\<exists>d. deref h v = Some (PDict d))"
  shows "\<exists>h'. show_body E a \<lparr>heap = h, trace = tr\<rparr> =
    (Inl (SystemExit None),
     \<lparr>heap = h', trace = tr @ [Print Stdout Config_json (json_dumps E (redacted_config t))]\<rparr>)"
proof -
  let ?n = "length h"
  let ?h1 = "h @ [PDict kvs]"
  have cp: "copy (config (session a)) \<lparr>heap = h, trace = tr\<rparr> = (Inr (PRef ?n), \<lparr>heap = ?h1, trace = tr\<rparr>)"
    using c by (simp add: copy_def alloc_def deref_def)
  from snapshot_dict_Some[OF t c(2,3)] obtain tkvs
    where tkvs: "t = JDict tkvs" and E0: "snapshot_entries h [c] kvs = Some tkvs"
    by blast
  have "snapshot_entries ?h1 [?n] kvs = Some tkvs"
    by (rule snapshot_entries_frame[OF E0]) (simp_all add: nth_append)
  then have t1: "snapshot ?h1 [] (PRef ?n) = Some t"
    by (simp add: snapshot_dict[where kvs = kvs] tkvs)
  have n1: "?n < length ?h1" "?h1 ! ?n = PDict kvs" by simp_all
  have s3': "case map_of kvs ''s3'' of None \<Rightarrow> True | Some v \<Rightarrow> (\<exists>d. deref ?h1 v = Some (PDict d))"
    using s3 by (auto split: option.splits intro: deref_append)
  from redact_stmt_run[OF n1 t1 s3', of "''secret''" tr] obtain h2 kvs2 where
    r2: "redact_stmt (PRef ?n) ''s3'' ''secret'' \<lparr>heap = ?h1, trace = tr\<rparr> = (Inr (), \<lparr>heap = h2, trace = tr\<rparr>)"
    and n2: "?n < length h2" "h2 ! ?n = PDict kvs2"
    and t2: "snapshot h2 [] (PRef ?n) = Some (redact ''s3'' ''secret'' t)"
    and k2: "\<forall>sec'. sec' \<noteq> ''s3'' \<longrightarrow> map_of kvs2 sec' = map_of kvs sec'"
    and d2: "\<forall>v. (\<exists>d. deref ?h1 v = Some (PDict d)) \<longrightarrow> (\<exists>d. deref h2 v = Some (PDict d))"
    by blast
  have ck': "case map_of kvs2 ''cookies'' of None \<Rightarrow> True | Some v \<Rightarrow> (\<exists>d. deref h2 v = Some (PDict d))"
  proof (cases "map_of kvs ''cookies''")
    case None
    with k2 show ?thesis by simp
  next
    case (Some v)
    with ck obtain d where "deref h v = Some (PDict d)" by auto
    then have "deref ?h1 v = Some (PDict d)" by (rule deref_append)
    with d2 have "\<exists>d. deref h2 v = Some (PDict d)" by blast
    with Some k2 show ?thesis by simp
  qed
  from redact_stmt_run[OF n2 t2 ck', of "''logged-in-sig''" tr] obtain h3 where
    r3: "redact_stmt (PRef ?n) ''cookies'' ''logged-in-sig'' \<lparr>heap = h2, trace = tr\<rparr> = (Inr (), \<lparr>heap = h3, trace = tr\<rparr>)"
    and t3: "snapshot h3 [] (PRef ?n) = Some (redacted_config t)"
    unfolding redacted_config_def by blast
  have d: "py_then (py_bind (dumps E (PRef ?n)) (\<lambda>text. print Stdout Config_json text)) (sys_exit None)
      \<lparr>heap = h3, trace = tr\<rparr> =
    (Inl (SystemExit None),
     \<lparr>heap = h3, trace = tr @ [Print Stdout Config_json (json_dumps E (redacted_config t))]\<rparr>)"
    using t3 by (simp add: py_defs dumps_def)
  have "show_body E a \<lparr>heap = h, trace = tr\<rparr> =
     py_then (redact_stmt (PRef ?n) ''s3'' ''secret'')
    (py_then (redact_stmt (PRef ?n) ''cookies'' ''logged-in-sig'')
    (py_then (py_bind (dumps E (PRef ?n)) (\<lambda>text. print Stdout Config_json text))
       (sys_exit None))) \<lparr>heap = ?h1, trace = tr\<rparr>"
    unfolding show_body_redact_stmt
    by (rule py_bind_eval[where m = "copy (config (session a))" and w = "\<lparr>heap = h, trace = tr\<rparr>", OF cp])
  also have "\<dots> = py_then (redact_stmt (PRef ?n) ''cookies'' ''logged-in-sig'')
    (py_then (py_bind (dumps E (PRef ?n)) (\<lambda>text. print Stdout Config_json text))
       (sys_exit None)) \<lparr>heap = h2, trace = tr\<rparr>"
    by (rule py_then_eval) (rule r2)
  also have "\<dots> = py_then (py_bind (dumps E (PRef ?n)) (\<lambda>text. print Stdout Config_json text))
       (sys_exit None) \<lparr>heap = h3, trace = tr\<rparr>"
    by (rule py_then_eval) (rule r3)
  finally have "show_body E a \<lparr>heap = h, trace = tr\<rparr> =
    (Inl (SystemExit None),
     \<lparr>heap = h3, trace = tr @ [Print Stdout Config_json (json_dumps E (redacted_config t))]\<rparr>)"
    using d by simp
  then show ?thesis by blast
qed

text \<open>
  C1. With \<^verbatim>\<open>--show\<close> (and no \<^verbatim>\<open>--print-cookies\<close>), for every configuration that
  \<^verbatim>\<open>json.dumps\<close> can serialise (no container inside itself) and whose \<^verbatim>\<open>s3\<close> and
  \<^verbatim>\<open>cookies\<close> sections, where present, are dictionaries: the one thing printed is, on
  stdout, the JSON text of the configuration in which \<^verbatim>\<open>s3.secret\<close> and
  \<^verbatim>\<open>cookies.logged-in-sig\<close>, where present, are the string \<^verbatim>\<open>REDACTED\<close> and all else
  is as it was; and the process exits with code 0.
\<close>

theorem show_prints_redacted_config:
  assumes "\<not> print_cookies a" "show_opt a"
    and "config (session a) = PRef c" "c < length h" "h ! c = PDict kvs"
    and "snapshot h [] (PRef c) = Some t"
    and "case map_of kvs ''s3'' of None \<Rightarrow> True | Some v \<Rightarrow> (\<exists>d. deref h v = Some (PDict d))"
    and "case map_of kvs ''cookies'' of None \<Rightarrow> True
         | Some v \<Rightarrow> (\<exists>d. deref h v = Some (PDict d))"
  shows "fst (main E a \<lparr>heap = h, trace = []\<rparr>) = Inl (SystemExit None)
    \<and> exit_code (fst (main E a \<lparr>heap = h, trace = []\<rparr>)) = Some 0
    \<and> trace (snd (main E a \<lparr>heap = h, trace = []\<rparr>))
        = [Print Stdout Config_json (json_dumps E (redacted_config t))]"
proof -
  from show_body_run[OF assms(3-8), of E "[]"] obtain h' where
    "show_body E a \<lparr>heap = h, trace = []\<rparr> =
      (Inl (SystemExit None),
       \<lparr>heap = h', trace = [Print Stdout Config_json (json_dumps E (redacted_config t))]\<rparr>)"
    by auto
  with assms(1,2) show ?thesis by (simp add: main_show exit_code_def)
qed

theorem show_prints_redacted_config_witness:
  "fst (main ex_env (ex_args\<lparr>show_opt := True\<rparr>) \<lparr>heap = ex_heap, trace = []\<rparr>)
     = Inl (SystemExit None)
   \<and> exit_code (fst (main ex_env (ex_args\<lparr>show_opt := True\<rparr>) \<lparr>heap = ex_heap, trace = []\<rparr>))
     = Some 0
   \<and> trace (snd (main ex_env (ex_args\<lparr>show_opt := True\<rparr>) \<lparr>heap = ex_heap, trace = []\<rparr>))
     = [Print Stdout Config_json (json_dumps ex_env
         (JDict [(''s3'', JDict [(''access'', JStr ''AKEY''), (''secret'', JStr ''REDACTED'')]),
                 (''cookies'', JDict [(''logged-in-user'', JStr ''alice''),
                                      (''logged-in-sig'', JStr ''REDACTED'')])]))]"
proof -
  let ?a = "ex_args\<lparr>show_opt := True\<rparr>"
  let ?t = "JDict [(''s3'', JDict [(''access'', JStr ''AKEY''), (''secret'', JStr ''SKEY'')]),
                   (''cookies'', JDict [(''logged-in-user'', JStr ''alice''),
                                        (''logged-in-sig'', JStr ''xyz'')])]"
  have 1: "\<not> print_cookies ?a" "show_opt ?a" by (simp_all add: ex_args_def)
  have 2: "config (session ?a) = PRef 0" by (simp add: ex_args_def ex_session_def)
  have 3: "0 < length ex_heap" "ex_heap ! 0 = PDict [(''s3'', PRef 1), (''cookies'', PRef 2)]"
    by (simp_all add: ex_heap_def)
  have 4: "snapshot ex_heap [] (PRef 0) = Some ?t"
    by (simp add: ex_heap_def snapshot.simps)
  have 5: "case map_of [(''s3'', PRef 1), (''cookies'', PRef 2)] ''s3'' of None \<Rightarrow> True
      | Some v \<Rightarrow> (\<exists>d. deref ex_heap v = Some (PDict d))"
    by (simp add: ex_heap_def deref_def)
  have 6: "case map_of [(''s3'', PRef 1), (''cookies'', PRef 2)] ''cookies'' of None \<Rightarrow> True
      | Some v \<Rightarrow> (\<exists>d. deref ex_heap v = Some (PDict d))"
    by (simp add: ex_heap_def deref_def)
  have 7: "redacted_config ?t =
     JDict [(''s3'', JDict [(''access'', JStr ''AKEY''), (''secret'', JStr ''REDACTED'')]),
            (''cookies'', JDict [(''logged-in-user'', JStr ''alice''),
                                 (''logged-in-sig'', JStr ''REDACTED'')])]"
    by (simp add: redacted_config_def redact_def redact_key_def)
  show ?thesis
    by (rule show_prints_redacted_config[OF 1 2 3 4 5 6, of ex_env, unfolded 7])
qed

subsection \<open>Checking the credentials\<close>

text \<open>
  C4. With \<^verbatim>\<open>--check\<close> (and neither \<^verbatim>\<open>--print-cookies\<close> nor \<^verbatim>\<open>--show\<close>), for
  every dictionary \<^verbatim>\<open>whoami()\<close> returns, of the shape it has on success when it reports
  success: if \<^verbatim>\<open>success\<close> is \<^verbatim>\<open>True\<close> the command prints
  \<^verbatim>\<open>The credentials for "<user>" are valid\<close> and exits 0; otherwise it prints one fixed
  message and exits 1, whatever else the answer holds.
\<close>

theorem check_outcome:
  assumes "\<not> print_cookies a" "\<not> show_opt a" "check a"
    and "whoami E = Inr info" "deref h info = Some (PDict ikvs)"
    and "map_of ikvs ''success'' = Some (PBool True) \<longrightarrow>
           (\<exists>v vkvs. map_of ikvs ''value'' = Some v \<and> deref h v = Some (PDict vkvs)
              \<and> map_of vkvs ''username'' = Some user)"
  shows \<open>main E a \<lparr>heap = h, trace = []\<rparr> =
    (if map_of ikvs ''success'' = Some (PBool True) then
       (Inl (SystemExit (Some 0)),
        \<lparr>heap = h, trace = [Call_whoami,
           Print Stdout Credentials_valid
             (''The credentials for "'' @ str_of E h user @ ''" are valid'')]\<rparr>)
     else
       (Inl (SystemExit (Some 1)),
        \<lparr>heap = h, trace = [Call_whoami,
           Print Stdout Invalid_credentials
             ''Your credentials are invalid, check your configuration and try again'']\<rparr>))\<close>
proof (cases "map_of ikvs ''success'' = Some (PBool True)")
  case True
  with assms(6) obtain v vkvs where "map_of ikvs ''value'' = Some v"
    "deref h v = Some (PDict vkvs)" "map_of vkvs ''username'' = Some user" by blast
  with True assms(1-5) show ?thesis
    by (simp add: main_check check_body_def py_defs get_def getitem_def str_def)
next
  case False
  with assms(1-5) show ?thesis
    by (simp add: main_check check_body_def py_defs get_def split: option.splits)
qed

theorem check_outcome_witness:
  \<open>main ex_env (ex_args\<lparr>check := True\<rparr>) \<lparr>heap = ex_heap, trace = []\<rparr> =
     (Inl (SystemExit (Some 0)),
      \<lparr>heap = ex_heap, trace = [Call_whoami,
         Print Stdout Credentials_valid ''The credentials for "alice" are valid'']\<rparr>)\<close>
  using check_outcome [of "ex_args\<lparr>check := True\<rparr>" ex_env "PRef 3" ex_heap
      "[(''success'', PBool True), (''value'', PRef 4)]" "PStr ''alice''"]
  by (simp add: ex_args_def ex_env_def ex_heap_def deref_def str_of_def)

subsection \<open>Where the messages go\<close>

lemma pbk_silent: "(\<And>w. trace (snd (m w)) = trace w) \<Longrightarrow> prints_by_kind m"
  by (simp add: prints_by_kind_def)

lemma pbk_return: "prints_by_kind (py_return x)"
  by (simp add: prints_by_kind_def py_return_def)

lemma pbk_raise: "prints_by_kind (py_raise e)"
  by (simp add: prints_by_kind_def py_raise_def)

lemma pbk_exit: "prints_by_kind (sys_exit c)"
  by (simp add: sys_exit_def pbk_raise)

lemma pbk_bind:
  assumes "prints_by_kind m" "\<And>x. prints_by_kind (f x)"
  shows "prints_by_kind (py_bind m f)"
  unfolding prints_by_kind_def
proof (intro allI ballI)
  fix w ev assume ev: "ev \<in> set (trace (snd (py_bind m f w)))"
  obtain r w' where mw: "m w = (r, w')" by (cases "m w")
  have m: "\<And>e. e \<in> set (trace w') \<Longrightarrow> e \<in> set (trace w) \<or> by_kind e"
    using assms(1) mw by (auto simp: prints_by_kind_def dest!: spec[of _ w])
  show "ev \<in> set (trace w) \<or> by_kind ev"
  proof (cases r)
    case (Inl e)
    with mw ev have "ev \<in> set (trace w')" by (simp add: py_bind_def)
    then show ?thesis by (rule m)
  next
    case (Inr x)
    with mw ev have "ev \<in> set (trace (snd (f x w')))" by (simp add: py_bind_def)
    with assms(2)[of x] have "ev \<in> set (trace w') \<or> by_kind ev"
      by (auto simp: prints_by_kind_def)
    with m show ?thesis by blast
  qed
qed

lemma pbk_then: "prints_by_kind m \<Longrightarrow> prints_by_kind n \<Longrightarrow> prints_by_kind (py_then m n)"
  by (simp add: py_then_def pbk_bind)

lemma pbk_when: "prints_by_kind m \<Longrightarrow> prints_by_kind (py_when b m)"
  by (simp add: py_when_def pbk_return)

lemma pbk_if: "prints_by_kind m \<Longrightarrow> prints_by_kind n \<Longrightarrow> prints_by_kind (if b then m else n)"
  by simp

lemma pbk_print: "s = stream_of k \<Longrightarrow> prints_by_kind (print s k t)"
  by (auto simp: prints_by_kind_def print_def)

lemma pbk_call_configure: "prints_by_kind (call (Call_configure u p c h) r)"
  by (auto simp: prints_by_kind_def call_def)

lemma pbk_call_whoami: "prints_by_kind (call Call_whoami r)"
  by (auto simp: prints_by_kind_def call_def)

lemma pbk_call_netrc: "prints_by_kind (call Call_netrc r)"
  by (auto simp: prints_by_kind_def call_def)

lemma pbk_try:
  assumes "prints_by_kind m" "\<And>e k. h e = Some k \<Longrightarrow> prints_by_kind k"
  shows "prints_by_kind (py_try m h)"
  unfolding prints_by_kind_def
proof (intro allI ballI)
  fix w ev assume ev: "ev \<in> set (trace (snd (py_try m h w)))"
  obtain r w' where mw: "m w = (r, w')" by (cases "m w")
  have m: "\<And>e. e \<in> set (trace w') \<Longrightarrow> e \<in> set (trace w) \<or> by_kind e"
    using assms(1) mw by (auto simp: prints_by_kind_def dest!: spec[of _ w])
  show "ev \<in> set (trace w) \<or> by_kind ev"
  proof (cases r)
    case (Inr x)
    with mw ev have "ev \<in> set (trace w')" by (simp add: py_try_def)
    then show ?thesis by (rule m)
  next
    case (Inl e)
    show ?thesis
    proof (cases "h e")
      case None
      with Inl mw ev have "ev \<in> set (trace w')" by (simp add: py_try_def)
      then show ?thesis by (rule m)
    next
      case (Some k)
      with Inl mw ev have "ev \<in> set (trace (snd (k w')))" by (simp add: py_try_def)
      with assms(2)[OF Some] have "ev \<in> set (trace w') \<or> by_kind ev"
        by (auto simp: prints_by_kind_def)
      with m show ?thesis by blast
    qed
  qed
qed

lemma pbk_get: "prints_by_kind (get x k)"
  by (rule pbk_silent) (simp add: get_def split: option.splits pyobj.splits)

lemma pbk_get_or_new_dict: "prints_by_kind (get_or_new_dict x k)"
  by (rule pbk_silent)
     (simp add: get_or_new_dict_def alloc_def py_bind_def py_return_def split: option.splits pyobj.splits)

lemma pbk_copy: "prints_by_kind (copy x)"
  by (rule pbk_silent) (simp add: copy_def alloc_def split: option.splits)

lemma pbk_contains: "prints_by_kind (contains k x)"
  by (rule pbk_silent) (simp add: contains_def split: option.splits pyobj.splits pyval.splits)

lemma pbk_getitem: "prints_by_kind (getitem x k)"
  by (rule pbk_silent) (simp add: getitem_def split: option.splits pyobj.splits)

lemma pbk_setitem: "prints_by_kind (setitem x k v)"
  by (rule pbk_silent) (simp add: setitem_def split: option.splits pyobj.splits pyval.splits)

lemma pbk_str: "prints_by_kind (str E v)"
  by (rule pbk_silent) (simp add: str_def)

lemma pbk_bool: "prints_by_kind (py_bool v)"
  by (rule pbk_silent) (simp add: py_bool_def)

lemma pbk_dumps: "prints_by_kind (dumps E x)"
  by (rule pbk_silent) (simp add: dumps_def split: option.splits)

lemma pbk_hosts_getitem: "prints_by_kind (hosts_getitem n k)"
  by (simp add: hosts_getitem_def pbk_return pbk_raise split: option.splits)

lemmas pbk_intros = pbk_bind pbk_then pbk_when pbk_if pbk_exit pbk_return pbk_raise
  pbk_call_configure pbk_call_whoami pbk_call_netrc
  pbk_get pbk_get_or_new_dict pbk_copy pbk_contains pbk_getitem pbk_setitem pbk_str pbk_bool
  pbk_dumps pbk_hosts_getitem

lemma pbk_print_cookies_body: "prints_by_kind (print_cookies_body E a)"
  unfolding print_cookies_body_def
  by (intro pbk_intros pbk_print) (simp_all add: stream_of_def)

lemma pbk_show_body: "prints_by_kind (show_body E a)"
  unfolding show_body_def
  by (intro pbk_intros pbk_print) (simp_all add: stream_of_def)

lemma pbk_check_body: "prints_by_kind (check_body E a)"
  unfolding check_body_def
  by (intro pbk_intros pbk_print) (simp_all add: stream_of_def)

lemma pbk_read_netrc: "prints_by_kind (read_netrc E)"
  unfolding read_netrc_def
  by (rule pbk_try, rule pbk_call_netrc)
     (auto split: exc.splits intro!: pbk_then pbk_exit pbk_print simp: stream_of_def)

lemma pbk_configure_body: "prints_by_kind (configure_body E a)"
  unfolding configure_body_def
  apply (rule pbk_try)
   apply (intro pbk_intros pbk_print pbk_read_netrc)
      apply (simp_all add: stream_of_def split: prod.splits)
   apply (intro allI impI pbk_intros pbk_print)
   apply (simp add: stream_of_def)
  apply (auto split: exc.splits intro!: pbk_then pbk_exit pbk_print simp: stream_of_def)
  done

lemma pbk_main: "prints_by_kind (main E a)"
  unfolding main_def
  by (intro pbk_then pbk_when pbk_print_cookies_body pbk_show_body pbk_check_body pbk_configure_body)

text \<open>
  The invalid-credentials message of \<^verbatim>\<open>--check\<close> is an error message of the
  specification's list, and it is printed on stdout.
\<close>

theorem check_failure_goes_to_stdout:
  "main ex_env (ex_args\<lparr>check := True\<rparr>) \<lparr>heap = ex_heap_denied, trace = []\<rparr> =
     (Inl (SystemExit (Some 1)),
      \<lparr>heap = ex_heap_denied, trace = [Call_whoami,
         Print Stdout Invalid_credentials
           ''Your credentials are invalid, check your configuration and try again'']\<rparr>)
   \<and> error_kind Invalid_credentials"
  by (simp add: main_check check_body_def py_defs get_def deref_def
      ex_args_def ex_env_def ex_heap_denied_def ex_heap_def error_kind_def)

text \<open>
  C7, as the code has it. In every run, an error message is written to stderr, except the
  invalid-credentials message of \<^verbatim>\<open>--check\<close>, which is written to stdout.
\<close>

theorem error_messages_streams:
  assumes "Print s k t \<in> set (trace (snd (main E a \<lparr>heap = h, trace = []\<rparr>)))"
    and "error_kind k"
  shows "s = (if k = Invalid_credentials then Stdout else Stderr)"
proof -
  from pbk_main[of E a] assms(1) have "by_kind (Print s k t)"
    unfolding prints_by_kind_def by fastforce
  with assms(2) show ?thesis
    by (auto simp: stream_of_def error_kind_def)
qed


theorem error_messages_streams_witness:
  "Print Stderr Netrc_file_not_found ''error: .netrc file not found.''
     \<in> set (trace (snd (main ex_env (ex_args\<lparr>netrc := True\<rparr>) \<lparr>heap = ex_heap, trace = []\<rparr>)))
   \<and> error_kind Netrc_file_not_found
   \<and> Stderr = (if Netrc_file_not_found = Invalid_credentials then Stdout else Stderr)"
proof -
  have m: "Print Stderr Netrc_file_not_found ''error: .netrc file not found.''
     \<in> set (trace (snd (main ex_env (ex_args\<lparr>netrc := True\<rparr>) \<lparr>heap = ex_heap, trace = []\<rparr>)))"
    by (simp add: main_default configure_body_def read_netrc_def py_defs ex_args_def ex_env_def)
  have k: "error_kind Netrc_file_not_found"
    by (simp add: error_kind_def)
  from m k error_messages_streams [OF m k] show ?thesis
    by blast
qed

end
